theory Spec2Isabelle
  imports Main "HOL-Library.Word" "HOL-Library.AList"
begin

section \<open>Go library functions used by the honeypot\<close>

text \<open>
  Go strings are byte sequences, as \<^typ>\<open>string\<close> is here. The functions of this section
  are not code of the repository: they are the parts of Go's \<^verbatim>\<open>strings\<close>,
  \<^verbatim>\<open>unicode\<close>, \<^verbatim>\<open>unicode/utf8\<close>, \<^verbatim>\<open>strconv\<close> and \<^verbatim>\<open>path/filepath\<close> packages
  that the commands call, written after the packages' documented behaviour on Unix.
\<close>

definition LF :: char where
  "LF = CHR 0x0A"

definition CR :: char where
  "CR = CHR 0x0D"

text \<open>
  \<^verbatim>\<open>strings.Fields\<close> splits a string around runs of white space. Go decodes the string
  as UTF-8, rune by rune: \<^verbatim>\<open>utf8.DecodeRuneInString\<close> gives the rune at the start of a
  string and the number of bytes it takes, and for bytes that are not a well-formed
  encoding the rune \<open>U+FFFD\<close> with width 1. \<^verbatim>\<open>unicode.IsSpace\<close> holds for the six
  ASCII white space characters, for \<open>U+0085\<close> and \<open>U+00A0\<close>, and for the other code
  points with the Unicode property White_Space. On a string of ASCII bytes only, Go takes
  a shorter way with the same result.
\<close>

definition RuneError :: nat where
  "RuneError = 0xFFFD"

fun DecodeRuneInString :: "string \<Rightarrow> nat \<times> nat" where
  "DecodeRuneInString [] = (RuneError, 0)"
| "DecodeRuneInString (c # s) =
     (let b0 = (of_char c :: nat)
      in if b0 < 0x80 then (b0, 1)
         else if b0 < 0xC2 \<or> 0xF4 < b0 then (RuneError, 1)
         else
           (let sz = (if b0 < 0xE0 then 2 else if b0 < 0xF0 then 3 else 4 :: nat);
                lo = (if b0 = 0xE0 then 0xA0 else if b0 = 0xF0 then 0x90 else 0x80 :: nat);
                hi = (if b0 = 0xED then 0x9F else if b0 = 0xF4 then 0x8F else 0xBF :: nat)
            in if length (c # s) < sz then (RuneError, 1)
               else
                 (let b1 = (of_char (s ! 0) :: nat)
                  in if b1 < lo \<or> hi < b1 then (RuneError, 1)
                     else if sz = 2 then ((b0 mod 32) * 64 + b1 mod 64, 2)
                     else
                       (let b2 = (of_char (s ! 1) :: nat)
                        in if b2 < 0x80 \<or> 0xBF < b2 then (RuneError, 1)
                           else if sz = 3
                           then ((b0 mod 16) * 4096 + (b1 mod 64) * 64 + b2 mod 64, 3)
                           else
                             (let b3 = (of_char (s ! 2) :: nat)
                              in if b3 < 0x80 \<or> 0xBF < b3 then (RuneError, 1)
                                 else ((b0 mod 8) * 262144 + (b1 mod 64) * 4096 +
                                       (b2 mod 64) * 64 + b3 mod 64, 4))))))"

definition IsSpace :: "nat \<Rightarrow> bool" where
  "IsSpace r =
     (if r \<le> 0xFF
      then r = 0x09 \<or> r = 0x0A \<or> r = 0x0B \<or> r = 0x0C \<or> r = 0x0D \<or> r = 0x20 \<or> r = 0x85 \<or>
           r = 0xA0
      else r = 0x1680 \<or> (0x2000 \<le> r \<and> r \<le> 0x200A) \<or> r = 0x2028 \<or> r = 0x2029 \<or>
           r = 0x202F \<or> r = 0x205F \<or> r = 0x3000)"

fun fieldsFrom :: "string \<Rightarrow> string \<Rightarrow> string list" where
  "fieldsFrom cur [] = (if cur = [] then [] else [cur])"
| "fieldsFrom cur (c # s) =
     (case DecodeRuneInString (c # s) of
        (r, width) \<Rightarrow>
          if IsSpace r
          then (if cur = [] then fieldsFrom [] (drop (width - 1) s)
                else cur # fieldsFrom [] (drop (width - 1) s))
          else fieldsFrom (cur @ take width (c # s)) (drop (width - 1) s))"

definition Fields :: "string \<Rightarrow> string list" where
  "Fields s = fieldsFrom [] s"

fun Split :: "string \<Rightarrow> char \<Rightarrow> string list" where
  "Split [] sep = [Nil]"
| "Split (c # s) sep =
     (if c = sep then [] # Split s sep
      else (case Split s sep of [] \<Rightarrow> [c # Nil] | p # ps \<Rightarrow> (c # p) # ps))"

fun Join :: "string list \<Rightarrow> string \<Rightarrow> string" where
  "Join [] sep = []"
| "Join [x] sep = x"
| "Join (x # y # xs) sep = x @ sep @ Join (y # xs) sep"

fun HasPrefix :: "string \<Rightarrow> string \<Rightarrow> bool" where
  "HasPrefix s [] = True"
| "HasPrefix [] (p # ps) = False"
| "HasPrefix (c # s) (p # ps) = (c = p \<and> HasPrefix s ps)"

definition HasSuffix :: "string \<Rightarrow> string \<Rightarrow> bool" where
  "HasSuffix s suffix = HasPrefix (rev s) (rev suffix)"

text \<open>
  \<^verbatim>\<open>strings.ReplaceAll(s, old, new)\<close> for a non-empty \<open>old\<close>: the non-overlapping
  occurrences of \<open>old\<close> are replaced from left to right. The source calls it with the
  patterns \<^verbatim>\<open>"\r\n"\<close> and \<^verbatim>\<open>"\n"\<close> only; for the empty pattern, where Go inserts
  \<open>new\<close> around every character, the model returns the string unchanged.
\<close>

fun ReplaceAll :: "string \<Rightarrow> string \<Rightarrow> string \<Rightarrow> string" where
  "ReplaceAll [] old new = []"
| "ReplaceAll (c # s) old new =
     (if old \<noteq> [] \<and> HasPrefix (c # s) old
      then new @ ReplaceAll (drop (length old - 1) s) old new
      else c # ReplaceAll s old new)"

text \<open>
  \<^verbatim>\<open>filepath.Clean\<close>: slashes are collapsed, \<open>.\<close> elements are dropped, an inner
  \<open>..\<close> removes the element before it, a \<open>..\<close> at the start of a rooted path is dropped
  and one at the start of a relative path is kept; the empty result is \<open>.\<close>.
  \<open>cleanElems\<close> keeps the elements already accepted in reverse order.
\<close>

fun cleanElems :: "bool \<Rightarrow> string list \<Rightarrow> string list \<Rightarrow> string list" where
  "cleanElems rooted out [] = rev out"
| "cleanElems rooted out (p # ps) =
     (if p = [] \<or> p = ''.'' then cleanElems rooted out ps
      else if p = ''..'' then
        (case out of
           [] \<Rightarrow> if rooted then cleanElems rooted out ps else cleanElems rooted (p # out) ps
         | q # qs \<Rightarrow>
             if q = ''..'' then cleanElems rooted (p # out) ps else cleanElems rooted qs ps)
      else cleanElems rooted (p # out) ps)"

definition Clean :: "string \<Rightarrow> string" where
  "Clean p =
     (let rooted = HasPrefix p ''/'';
          body = Join (cleanElems rooted [] (Split p CHR ''/'')) ''/''
      in if rooted then CHR ''/'' # body else if body = [] then ''.'' else body)"

datatype error = EOF | ErrWrite | ErrSyntax | ErrRange

text \<open>
  \<^verbatim>\<open>strconv.ParseUint(s, 10, 32)\<close>: the empty string and any byte that is not a
  decimal digit give a syntax error with value 0; a value above \<open>2^32 - 1\<close> gives a range
  error with value \<open>2^32 - 1\<close>. No sign and no underscore is accepted in base 10.
\<close>

definition isDigit :: "char \<Rightarrow> bool" where
  "isDigit c = (48 \<le> (of_char c :: nat) \<and> (of_char c :: nat) \<le> 57)"

fun parseDigits :: "nat \<Rightarrow> string \<Rightarrow> nat \<times> error option" where
  "parseDigits n [] = (n, None)"
| "parseDigits n (c # s) =
     (if \<not> isDigit c then (0, Some ErrSyntax)
      else if n * 10 + (of_char c - 48) > 2 ^ 32 - 1 then (2 ^ 32 - 1, Some ErrRange)
      else parseDigits (n * 10 + (of_char c - 48)) s)"

definition ParseUint :: "string \<Rightarrow> 64 word \<times> error option" where
  "ParseUint s =
     (if s = [] then (0, Some ErrSyntax)
      else (case parseDigits 0 s of (n, e) \<Rightarrow> (of_nat n, e)))"

section \<open>Command contexts and the world they run in\<close>

text \<open>
  A command context carries the argument vector, the pty flag and the user; its three
  stream handles are the streams of the world record. The world holds what the commands
  read and change: the lines still to be read from stdin, the write calls made so far on
  stdout and stderr (in order, whatever the writer answered), the writer's answer to each
  call (\<open>write_fails\<close>, applied to the calls made up to and including the current one), and
  the process-global \<^verbatim>\<open>FileSystem\<close> variable together with the nodes its pointers refer
  to. A pointer to a node is the node's index in \<open>nodes\<close>; a new node is allocated at the
  end of the list.
\<close>

record commandContext =
  args :: "string list"
  pty :: bool
  user :: string

datatype stream = Stdout | Stderr

record FileSystemNode =
  IsDir :: bool
  Content :: string
  Children :: "(string \<times> nat) list option"

record FileSystemType =
  Root :: nat
  Current :: nat
  Path :: string

record world =
  stdin :: "string list"
  written :: "(stream \<times> string) list"
  write_fails :: "(stream \<times> string) list \<Rightarrow> bool"
  nodes :: "FileSystemNode list"
  FileSystem :: FileSystemType

text \<open>
  A command returns a status and an error, or it panics. A panic that nothing recovers
  ends the process, so the world beside \<open>Panic\<close> is of no consequence; the model gives
  the world in which the command started.
\<close>

datatype result = Return (status: "32 word") (err: "error option") | Panic

definition Fprint :: "stream \<Rightarrow> string \<Rightarrow> world \<Rightarrow> error option \<times> world" where
  "Fprint s str w =
     (let out = written w @ [(s, str)]
      in (if write_fails w out then Some ErrWrite else None, w\<lparr>written := out\<rparr>))"

definition Fprintln :: "stream \<Rightarrow> string \<Rightarrow> world \<Rightarrow> error option \<times> world" where
  "Fprintln s str w = Fprint s (str @ [LF]) w"

definition ReadLine :: "world \<Rightarrow> (string \<times> error option) \<times> world" where
  "ReadLine w =
     (case stdin w of
        [] \<Rightarrow> (([], Some EOF), w)
      | l # ls \<Rightarrow> ((l, None), w\<lparr>stdin := ls\<rparr>))"

text \<open>The node a pointer refers to, and the lookup \<^verbatim>\<open>node.Children[name]\<close>, which on a
  nil map finds nothing.\<close>

definition node_at :: "world \<Rightarrow> nat \<Rightarrow> FileSystemNode" where
  "node_at w a = nodes w ! a"

definition child :: "world \<Rightarrow> nat \<Rightarrow> string \<Rightarrow> nat option" where
  "child w a name = (case Children (node_at w a) of None \<Rightarrow> None | Some ch \<Rightarrow> map_of ch name)"

text \<open>
  The assignment \<^verbatim>\<open>node.Children[name] = &FileSystemNode{...}\<close>: the new node is
  allocated, then stored under the name; storing into a nil map panics (\<open>None\<close>).
\<close>

definition set_child :: "world \<Rightarrow> nat \<Rightarrow> string \<Rightarrow> FileSystemNode \<Rightarrow> world option" where
  "set_child w a name n =
     (case Children (node_at w a) of
        None \<Rightarrow> None
      | Some ch \<Rightarrow>
          Some (w\<lparr>nodes := (nodes w)[a := (node_at w a)\<lparr>Children := Some (AList.update name (length (nodes w)) ch)\<rparr>] @ [n]\<rparr>))"

definition new_file :: FileSystemNode where
  "new_file = \<lparr>IsDir = False, Content = [], Children = None\<rparr>"

definition new_dir :: FileSystemNode where
  "new_dir = \<lparr>IsDir = True, Content = [], Children = Some []\<rparr>"

section \<open>The built-in commands\<close>

definition cmdTrue_execute :: "commandContext \<Rightarrow> world \<Rightarrow> result \<times> world" where
  "cmdTrue_execute ctx w = (Return 0 None, w)"

definition cmdFalse_execute :: "commandContext \<Rightarrow> world \<Rightarrow> result \<times> world" where
  "cmdFalse_execute ctx w = (Return 1 None, w)"

text \<open>\<^verbatim>\<open>context.args[1:]\<close> panics on an empty argument vector.\<close>

definition cmdEcho_execute :: "commandContext \<Rightarrow> world \<Rightarrow> result \<times> world" where
  "cmdEcho_execute ctx w =
     (case args ctx of
        [] \<Rightarrow> (Panic, w)
      | _ # rest \<Rightarrow> (case Fprintln Stdout (Join rest '' '') w of (e, w') \<Rightarrow> (Return 0 e, w')))"

definition cmdPwd_execute :: "commandContext \<Rightarrow> world \<Rightarrow> result \<times> world" where
  "cmdPwd_execute ctx w =
     (case Fprintln Stdout (Path (FileSystem w)) w of (e, w') \<Rightarrow> (Return 0 e, w'))"

fun mkdir_parts :: "string list \<Rightarrow> nat \<Rightarrow> world \<Rightarrow> world option" where
  "mkdir_parts [] node w = Some w"
| "mkdir_parts (part # parts) node w =
     (if part = [] then mkdir_parts parts node w
      else (case child w node part of
              Some a \<Rightarrow> mkdir_parts parts a w
            | None \<Rightarrow>
                (case set_child w node part new_dir of
                   None \<Rightarrow> None
                 | Some w' \<Rightarrow> mkdir_parts parts (length (nodes w)) w')))"

fun mkdir_dirs :: "string list \<Rightarrow> world \<Rightarrow> world option" where
  "mkdir_dirs [] w = Some w"
| "mkdir_dirs (dir # dirs) w =
     (case mkdir_parts (Split (Clean dir) CHR ''/'') (Current (FileSystem w)) w of
        None \<Rightarrow> None
      | Some w' \<Rightarrow> mkdir_dirs dirs w')"

definition cmdMkdir_execute :: "commandContext \<Rightarrow> world \<Rightarrow> result \<times> world" where
  "cmdMkdir_execute ctx w =
     (if length (args ctx) < 2
      then (case Fprintln Stderr ''mkdir: missing operand'' w of (e, w') \<Rightarrow> (Return 1 e, w'))
      else (case mkdir_dirs (tl (args ctx)) w of
              None \<Rightarrow> (Panic, w)
            | Some w' \<Rightarrow> (Return 0 None, w')))"

text \<open>
  The walk of \<^verbatim>\<open>cmdCd.execute\<close> over the parts of the cleaned path: \<open>..\<close>, \<open>.\<close> and
  the empty part are skipped, any other part must name a directory below the node
  reached so far. \<open>None\<close> is the failing lookup.
\<close>

fun cd_parts :: "string list \<Rightarrow> nat \<Rightarrow> world \<Rightarrow> nat option" where
  "cd_parts [] node w = Some node"
| "cd_parts (part # parts) node w =
     (if part = ''..'' then cd_parts parts node w
      else if part = ''.'' \<or> part = [] then cd_parts parts node w
      else (case child w node part of
              None \<Rightarrow> None
            | Some c \<Rightarrow> if IsDir (node_at w c) then cd_parts parts c w else None))"

definition cmdCd_execute :: "commandContext \<Rightarrow> world \<Rightarrow> result \<times> world" where
  "cmdCd_execute ctx w =
     (if length (args ctx) < 2
      then (Return 0 None,
            w\<lparr>FileSystem := (FileSystem w)\<lparr>Current := Root (FileSystem w), Path := ''/''\<rparr>\<rparr>)
      else
        (let targetPath = Clean (args ctx ! 1)
         in if targetPath = ''/''
            then (Return 0 None,
                  w\<lparr>FileSystem := (FileSystem w)\<lparr>Current := Root (FileSystem w), Path := ''/''\<rparr>\<rparr>)
            else
              (case cd_parts (Split targetPath CHR ''/'') (Current (FileSystem w)) w of
                 None \<Rightarrow>
                   (case Fprint Stderr (''cd: '' @ targetPath @ '': No such file or directory'' @ [LF]) w
                    of (e, w') \<Rightarrow> (Return 1 e, w'))
               | Some node \<Rightarrow>
                   (Return 0 None,
                    w\<lparr>FileSystem := (FileSystem w)\<lparr>Current := node, Path := targetPath\<rparr>\<rparr>))))"

text \<open>
  The loop of \<^verbatim>\<open>cmdCat.execute\<close> returns from both branches of its body, in the first
  iteration.
\<close>

fun cat_files :: "string list \<Rightarrow> world \<Rightarrow> result \<times> world" where
  "cat_files [] w = (Return 0 None, w)"
| "cat_files (file # files) w =
     (case child w (Current (FileSystem w)) file of
        None \<Rightarrow>
          (case Fprint Stderr (''cat: '' @ file @ '': No such file or directory'' @ [LF]) w
           of (e, w') \<Rightarrow> (Return 1 e, w'))
      | Some a \<Rightarrow>
          if \<not> IsDir (node_at w a)
          then (case Fprintln Stdout (Content (node_at w a)) w of (e, w') \<Rightarrow> (Return 0 e, w'))
          else (case Fprint Stderr (''cat: '' @ file @ '': No such file or directory'' @ [LF]) w
                of (e, w') \<Rightarrow> (Return 1 e, w')))"

definition cmdCat_execute :: "commandContext \<Rightarrow> world \<Rightarrow> result \<times> world" where
  "cmdCat_execute ctx w =
     (if length (args ctx) < 2
      then (case Fprintln Stderr ''cat: missing operand'' w of (e, w') \<Rightarrow> (Return 1 e, w'))
      else cat_files (tl (args ctx)) w)"

text \<open>
  \<^verbatim>\<open>cmdLs.execute\<close> ranges over a Go map, whose order is unspecified; the model takes
  the order of the association list.
\<close>

fun ls_files :: "string list \<Rightarrow> world \<Rightarrow> result \<times> world" where
  "ls_files [] w = (Return 0 None, w)"
| "ls_files (file # files) w =
     (case Fprintln Stdout file w of
        (Some e, w') \<Rightarrow> (Return 1 (Some e), w')
      | (None, w') \<Rightarrow> ls_files files w')"

definition cmdLs_execute :: "commandContext \<Rightarrow> world \<Rightarrow> result \<times> world" where
  "cmdLs_execute ctx w =
     (case Children (node_at w (Current (FileSystem w))) of
        None \<Rightarrow> (Return 0 None, w)
      | Some ch \<Rightarrow> ls_files (map fst ch) w)"

fun touch_files :: "string list \<Rightarrow> world \<Rightarrow> world option" where
  "touch_files [] w = Some w"
| "touch_files (file # files) w =
     (case set_child w (Current (FileSystem w)) file new_file of
        None \<Rightarrow> None
      | Some w' \<Rightarrow> touch_files files w')"

definition touch_usage :: string where
  "touch_usage = ''usage: touch [-A [-]['' @ ''[hh]mm]SS] [-achm] [-r file] [-t ['' @
     ''[CC]YY]MMDDhhmm[.SS]]'' @ [LF] @ ''[-d YYYY-MM-DDThh:mm:SS[.frac][tz]] file ...''"

definition cmdTouch_execute :: "commandContext \<Rightarrow> world \<Rightarrow> result \<times> world" where
  "cmdTouch_execute ctx w =
     (if length (args ctx) < 2
      then (case Fprintln Stderr touch_usage w of (e, w') \<Rightarrow> (Return 1 e, w'))
      else (case touch_files (tl (args ctx)) w of
              None \<Rightarrow> (Panic, w)
            | Some w' \<Rightarrow> (Return 0 None, w')))"

section \<open>The registry, the executor and the shell\<close>

datatype command = cmdShell | cmdTrue | cmdFalse | cmdEcho | cmdCat | cmdLs | cmdTouch
  | cmdMkdir | cmdCd | cmdPwd | cmdSu

definition commands :: "(string \<times> command) list" where
  "commands =
     [(''sh'', cmdShell), (''true'', cmdTrue), (''false'', cmdFalse), (''echo'', cmdEcho),
      (''cat'', cmdCat), (''ls'', cmdLs), (''touch'', cmdTouch), (''mkdir'', cmdMkdir),
      (''cd'', cmdCd), (''pwd'', cmdPwd), (''su'', cmdSu)]"

definition shellProgram :: "string list" where
  "shellProgram = [''sh'']"

definition shell_prompt :: "commandContext \<Rightarrow> string" where
  "shell_prompt ctx = (if pty ctx then (if user ctx = ''root'' then ''# '' else ''$ '') else [])"

definition su_context :: "commandContext \<Rightarrow> commandContext" where
  "su_context ctx =
     ctx\<lparr>user := (if length (args ctx) > 1 then args ctx ! 1 else ''root''),
         args := shellProgram\<rparr>"

text \<open>
  The \<open>exit\<close> line of the shell: the status it returns, from the tokens after \<open>exit\<close>
  and the last status.
\<close>

definition exit_status :: "string list \<Rightarrow> 32 word \<Rightarrow> 32 word" where
  "exit_status rest lastStatus =
     (case rest of
        [] \<Rightarrow> ucast (ucast lastStatus :: 64 word)
      | a # _ \<Rightarrow>
          (case ParseUint a of
             (v, None) \<Rightarrow> ucast v
           | (v, Some e) \<Rightarrow> ucast (255 :: 64 word)))"

text \<open>
  The shell reads lines for as long as its input lasts and \<open>su\<close> starts a shell inside
  the shell, so the executor, the dispatch to a handler and the loop of the shell are
  defined together over a bound on the calls and iterations still allowed; \<open>None\<close> is
  the bound reached before the call returned.
\<close>

fun executeProgram :: "nat \<Rightarrow> commandContext \<Rightarrow> world \<Rightarrow> (result \<times> world) option"
  and execute :: "nat \<Rightarrow> command \<Rightarrow> commandContext \<Rightarrow> world \<Rightarrow> (result \<times> world) option"
  and shell_loop :: "nat \<Rightarrow> commandContext \<Rightarrow> string \<Rightarrow> 32 word \<Rightarrow> world \<Rightarrow> (result \<times> world) option"
where
  "executeProgram 0 ctx w = None"
| "executeProgram (Suc n) ctx w =
     (case args ctx of
        [] \<Rightarrow> Some (Return 0 None, w)
      | name # _ \<Rightarrow>
          (case map_of commands name of
             None \<Rightarrow>
               (case Fprint Stderr (name @ '': command not found'' @ [LF]) w of
                  (e, w') \<Rightarrow> Some (Return 127 e, w'))
           | Some c \<Rightarrow> execute n c ctx w))"
| "execute 0 c ctx w = None"
| "execute (Suc n) c ctx w =
     (case c of
        cmdShell \<Rightarrow> shell_loop n ctx (shell_prompt ctx) 0 w
      | cmdTrue \<Rightarrow> Some (cmdTrue_execute ctx w)
      | cmdFalse \<Rightarrow> Some (cmdFalse_execute ctx w)
      | cmdEcho \<Rightarrow> Some (cmdEcho_execute ctx w)
      | cmdCat \<Rightarrow> Some (cmdCat_execute ctx w)
      | cmdLs \<Rightarrow> Some (cmdLs_execute ctx w)
      | cmdTouch \<Rightarrow> Some (cmdTouch_execute ctx w)
      | cmdMkdir \<Rightarrow> Some (cmdMkdir_execute ctx w)
      | cmdCd \<Rightarrow> Some (cmdCd_execute ctx w)
      | cmdPwd \<Rightarrow> Some (cmdPwd_execute ctx w)
      | cmdSu \<Rightarrow> executeProgram n (su_context ctx) w)"
| "shell_loop 0 ctx prompt lastStatus w = None"
| "shell_loop (Suc n) ctx prompt lastStatus w =
     (case Fprint Stdout prompt w of
        (Some e, w1) \<Rightarrow> Some (Return lastStatus (Some e), w1)
      | (None, w1) \<Rightarrow>
          (case ReadLine w1 of
             ((line, Some e), w2) \<Rightarrow> Some (Return lastStatus (Some e), w2)
           | ((line, None), w2) \<Rightarrow>
               (case Fields line of
                  [] \<Rightarrow> shell_loop n ctx prompt lastStatus w2
                | tok # rest \<Rightarrow>
                    if tok = ''exit'' then Some (Return (exit_status rest lastStatus) None, w2)
                    else
                      (case executeProgram n (ctx\<lparr>args := tok # rest\<rparr>) w2 of
                         None \<Rightarrow> None
                       | Some (Panic, w3) \<Rightarrow> Some (Panic, w3)
                       | Some (Return st (Some e), w3) \<Rightarrow> Some (Return st (Some e), w3)
                       | Some (Return st None, w3) \<Rightarrow> shell_loop n ctx prompt st w3))))"

section \<open>The file system at start-up\<close>

text \<open>
  The \<^verbatim>\<open>FileSystem\<close> variable after \<^verbatim>\<open>init()\<close>: the root directory holds the three
  bait files, and the current directory is the root.
\<close>

definition usr_txt :: string where
  "usr_txt = ''eberk0, cswyne, edan, aroullier, john, henk''"

definition pwd_txt :: string where
  "pwd_txt = ''$2a$04$3ise9UoQ38ceyn6qUmb8neC8UyQnfNiog8ObMSPx.4KLV/vYU0XaC, $2a$04$Z2Orf4kkPuwncqrXae7L1uE5elj1Em9fhw4f8PmwS4POBAdvfzRPa, $2a$04$NkF1cDQf6CSkF83zfucmtO8.yChntXtG8HLB2zJJiZTiKIR2yHbTa, $2a$04$VFAUxOCo5hZuKjQqN6FW/.6TNoLQjFdId02Fk0pPhC0NmWiyUjwCW, $2a$04$y/dBmr4B7zWaNGpTNpjqUuZRHz9bxBaH0LwfEouan2283rBxoLWxu, $2a$04$ATK3lPdtQokdeoBJh.aOweV9h9yU6SMSQ24b7jXDZeUoHC0sMWmZS''"

definition checking_account_txt :: string where
  "checking_account_txt = ''null, 4936739041871256, null, 5133014750298309, 3531203913896199, 4405957561612502''"

definition init_nodes :: "FileSystemNode list" where
  "init_nodes =
     [\<lparr>IsDir = True, Content = [],
       Children = Some [(''usr.txt'', 1), (''pwd.txt'', 2), (''checking_account.txt'', 3)]\<rparr>,
      \<lparr>IsDir = False, Content = usr_txt, Children = None\<rparr>,
      \<lparr>IsDir = False, Content = pwd_txt, Children = None\<rparr>,
      \<lparr>IsDir = False, Content = checking_account_txt, Children = None\<rparr>]"

definition init_FileSystem :: FileSystemType where
  "init_FileSystem = \<lparr>Root = 0, Current = 0, Path = ''/''\<rparr>"

text \<open>A world at start-up: the given input lines, nothing written yet, a writer that
  never fails.\<close>

definition init_world :: "string list \<Rightarrow> world" where
  "init_world ls =
     \<lparr>stdin = ls, written = [], write_fails = (\<lambda>_. False), nodes = init_nodes,
      FileSystem = init_FileSystem\<rparr>"

section \<open>The earlier commands over a flat file system\<close>

text \<open>
  The file \<^verbatim>\<open>src/unnamed/part_000\<close> holds an earlier version of the commands, in which
  \<^verbatim>\<open>FileSystem\<close> is a map from file names to contents and there are no directories.
  Its executor and shell are the ones above, word for word; its \<open>touch\<close> and
  \<open>cat\<close> differ and are given here. The map is passed and returned beside the world,
  whose streams the commands use.
\<close>

type_synonym flatFileSystem = "(string \<times> string) list"

definition cmdTouch_execute_flat ::
  "commandContext \<Rightarrow> flatFileSystem \<Rightarrow> world \<Rightarrow> result \<times> flatFileSystem \<times> world" where
  "cmdTouch_execute_flat ctx files w =
     (if length (args ctx) > 1
      then
        (let file = args ctx ! 1
         in if map_of files file \<noteq> None \<and> user ctx \<noteq> ''root''
            then (case Fprintln Stdout
                         (''touch: cannot touch '' @ [CHR 0x22] @ file @ [CHR 0x22] @
                          '' : Permission denied'') w
                  of (e, w') \<Rightarrow> (Return 1 e, files, w'))
            else (Return 0 None,
                  if length (args ctx) = 2 then AList.update file [] files else files, w))
      else (case Fprintln Stdout touch_usage w of (e, w') \<Rightarrow> (Return 1 e, files, w')))"

fun cat_files_flat :: "string \<Rightarrow> string list \<Rightarrow> flatFileSystem \<Rightarrow> world \<Rightarrow> result \<times> world" where
  "cat_files_flat arg0 [] files w = (Return 1 None, w)"
| "cat_files_flat arg0 (file # rest) files w =
     (case map_of files file of
        Some content \<Rightarrow>
          (case Fprintln Stdout content w of
             (Some e, w') \<Rightarrow> (Return 0 (Some e), w')
           | (None, w') \<Rightarrow> cat_files_flat arg0 rest files w')
      | None \<Rightarrow>
          (case Fprint Stderr (arg0 @ '': '' @ file @ '': No such file or directory'' @ [LF]) w of
             (Some e, w') \<Rightarrow> (Return 0 (Some e), w')
           | (None, w') \<Rightarrow> cat_files_flat arg0 rest files w'))"

definition cmdCat_execute_flat ::
  "commandContext \<Rightarrow> flatFileSystem \<Rightarrow> world \<Rightarrow> result \<times> world" where
  "cmdCat_execute_flat ctx files w =
     (if length (args ctx) > 1
      then cat_files_flat (hd (args ctx)) (tl (args ctx)) files w
      else (Return 0 None, w))"

definition init_flatFileSystem :: flatFileSystem where
  "init_flatFileSystem =
     [(''usr.txt'', usr_txt), (''pwd.txt'', pwd_txt), (''cc.txt'', checking_account_txt)]"

section \<open>Authentication callbacks and the banner\<close>

text \<open>
  The fields of the configuration that \<^verbatim>\<open>getPasswordCallback\<close> and
  \<^verbatim>\<open>getBannerCallback\<close> read (\<^verbatim>\<open>cfg.Auth.PasswordAuth.Enabled\<close>,
  \<^verbatim>\<open>cfg.Auth.PasswordAuth.Accepted\<close>, \<^verbatim>\<open>cfg.SSHProto.Banner\<close>, \<^verbatim>\<open>cfg.validUser\<close>,
  \<^verbatim>\<open>cfg.validPass\<close>), and of the connection metadata the user name. An event passed to
  \<^verbatim>\<open>logEvent\<close> is appended to the list of logged events.
\<close>

record config =
  PasswordAuth_Enabled :: bool
  PasswordAuth_Accepted :: bool
  Banner :: string
  validUser :: string
  validPass :: string

record ConnMetadata =
  conn_User :: string

record authLog =
  User :: string
  Accepted :: bool

datatype logEntry = passwordAuthLog authLog (Password: string)

text \<open>
  A callback answers an attempt with an error, \<open>Some\<close> of its message, or with \<open>None\<close>
  for success, and returns the log. \<open>None\<close> for the callback itself is Go's nil
  callback: the method is not offered.
\<close>

type_synonym passwordCallback =
  "ConnMetadata \<Rightarrow> string \<Rightarrow> logEntry list \<Rightarrow> string option \<times> logEntry list"

definition getPasswordCallback :: "config \<Rightarrow> passwordCallback option" where
  "getPasswordCallback cfg =
     (if \<not> PasswordAuth_Enabled cfg then None
      else Some (\<lambda>conn password log.
        if conn_User conn = validUser cfg \<and> password = validPass cfg
        then (None,
              log @ [passwordAuthLog
                       \<lparr>User = conn_User conn, Accepted = PasswordAuth_Accepted cfg\<rparr> password])
        else (Some [],
              log @ [passwordAuthLog \<lparr>User = conn_User conn, Accepted = False\<rparr> password])))"

definition getBannerCallback :: "config \<Rightarrow> (ConnMetadata \<Rightarrow> string) option" where
  "getBannerCallback cfg =
     (if Banner cfg = [] then None
      else
        (let banner = ReplaceAll (ReplaceAll (Banner cfg) [CR, LF] [LF]) [LF] [CR, LF];
             banner = (if \<not> HasSuffix banner [CR, LF] then banner @ [CR, LF] else banner)
         in Some (\<lambda>conn. banner)))"

text \<open>
  The banner as the specification words it: every line feed of the configured string
  becomes carriage return and line feed, and the pair is appended when the result does
  not end with it.
\<close>

definition banner_as_specified :: "string \<Rightarrow> string" where
  "banner_as_specified b =
     (let c = ReplaceAll b [LF] [CR, LF] in if HasSuffix c [CR, LF] then c else c @ [CR, LF])"

text \<open>
  Line ends made uniform: a line feed gets a carriage return in front of it unless one
  is there already.
\<close>

fun crlf :: "string \<Rightarrow> string" where
  "crlf [] = []"
| "crlf [c] = (if c = LF then [CR, LF] else [c])"
| "crlf (c # d # s) =
     (if c = CR \<and> d = LF then CR # LF # crlf s
      else if c = LF then CR # LF # crlf (d # s)
      else c # crlf (d # s))"

section \<open>Direct TCP/IP channels\<close>

text \<open>
  \<^verbatim>\<open>handleDirectTCPIPChannel\<close> talks to the SSH library, to the log and, through three Go
  channels, to the goroutine that runs the emulator. The model records the calls the
  handler makes, in order, as actions. What the surroundings answer is given as input:
  the outcome of \<^verbatim>\<open>ssh.Unmarshal\<close> on the extra data, the outcome of
  \<^verbatim>\<open>newChannel.Accept\<close>, and the list of the cases that the \<^verbatim>\<open>select\<close> statement
  takes, one per iteration of the loop. A request carries its \<^verbatim>\<open>WantReply\<close> flag and the
  error, if any, with which \<^verbatim>\<open>request.Reply\<close> would answer.
\<close>

record tcpipChannelData =
  Address :: string
  Port :: "32 word"
  OriginatorAddress :: string
  OriginatorPort :: "32 word"

datatype chanError = ErrUnmarshal | ErrAccept | ErrReply | ErrServer

datatype server = httpServer

definition servers :: "(32 word \<times> server) list" where
  "servers = [(80, httpServer)]"

datatype action =
    Accept
  | Reject
  | Close
  | LogNewChannelAccepted tcpipChannelData
  | LogChannelClosed
  | LogUnsupportedPort "32 word"
  | StartServer server
  | LogChannelInput string
  | Reply bool

datatype selected =
    Input string
  | InputClosed
  | ServerResult "chanError option"
  | ErrorClosed
  | Request (WantReply: bool) (replyError: "chanError option")
  | RequestsClosed

text \<open>
  The loop over the three channels. The flags say which of \<^verbatim>\<open>inputChan\<close>,
  \<^verbatim>\<open>errorChan\<close> and \<^verbatim>\<open>requests\<close> are not nil yet. A case on a channel that is nil
  cannot be taken and is passed over. When the cases run out while a channel is still
  open, the handler waits for ever: the result is \<open>None\<close>.
\<close>

fun serve :: "bool \<Rightarrow> bool \<Rightarrow> bool \<Rightarrow> selected list \<Rightarrow> action list
    \<Rightarrow> (chanError option \<times> action list) option" where
  "serve inputOpen errorOpen requestsOpen cases acts =
     (if \<not> (inputOpen \<or> errorOpen \<or> requestsOpen) then Some (None, acts)
      else
        (case cases of
           [] \<Rightarrow> None
         | Input input # rest \<Rightarrow>
             if inputOpen
             then serve inputOpen errorOpen requestsOpen rest (acts @ [LogChannelInput input])
             else serve inputOpen errorOpen requestsOpen rest acts
         | InputClosed # rest \<Rightarrow> serve False errorOpen requestsOpen rest acts
         | ServerResult e # rest \<Rightarrow>
             if errorOpen
             then (case e of
                     Some x \<Rightarrow> Some (Some x, acts)
                   | None \<Rightarrow> serve inputOpen errorOpen requestsOpen rest acts)
             else serve inputOpen errorOpen requestsOpen rest acts
         | ErrorClosed # rest \<Rightarrow> serve inputOpen False requestsOpen rest acts
         | Request wantReply replyErr # rest \<Rightarrow>
             if requestsOpen
             then (if wantReply
                   then (case replyErr of
                           Some x \<Rightarrow> Some (Some x, acts @ [Reply False])
                         | None \<Rightarrow>
                             serve inputOpen errorOpen requestsOpen rest (acts @ [Reply False]))
                   else serve inputOpen errorOpen requestsOpen rest acts)
             else serve inputOpen errorOpen requestsOpen rest acts
         | RequestsClosed # rest \<Rightarrow> serve inputOpen errorOpen False rest acts))"

text \<open>
  The handler. The deferred log entry \<open>Channel closed\<close> is written on every return after
  the channel was accepted.
\<close>

definition handleDirectTCPIPChannel ::
  "chanError + tcpipChannelData \<Rightarrow> chanError option \<Rightarrow> selected list
    \<Rightarrow> (chanError option \<times> action list) option" where
  "handleDirectTCPIPChannel extraData acceptError cases =
     (case extraData of
        Inl e \<Rightarrow> Some (Some e, [])
      | Inr channelData \<Rightarrow>
          (case acceptError of
             Some e \<Rightarrow> Some (Some e, [Accept])
           | None \<Rightarrow>
               (case map_of servers (Port channelData) of
                  None \<Rightarrow>
                    Some (None,
                          [Accept, LogNewChannelAccepted channelData,
                           LogUnsupportedPort (Port channelData), LogChannelClosed])
                | Some srv \<Rightarrow>
                    (case serve True True True cases
                            [Accept, LogNewChannelAccepted channelData, StartServer srv] of
                       None \<Rightarrow> None
                     | Some (e, acts) \<Rightarrow> Some (e, acts @ [LogChannelClosed])))))"

section \<open>Notions used to state the properties\<close>



text \<open>The entry \<open>name\<close> of directory \<open>d\<close> is a file node as \<^verbatim>\<open>touch\<close> creates it.\<close>

definition empty_file_at :: "world \<Rightarrow> nat \<Rightarrow> string \<Rightarrow> bool" where
  "empty_file_at w d name =
     (case child w d name of
        None \<Rightarrow> False
      | Some a \<Rightarrow> a < length (nodes w) \<and> a \<noteq> d \<and> node_at w a = new_file)"

text \<open>
  A session of the shell for the user \<open>bob\<close> without a pty, started on the file system
  as it is at start-up, with the given input lines: the result, the write calls and the
  \<^verbatim>\<open>FileSystem\<close> variable at the end.
\<close>

definition session :: "string list \<Rightarrow> (result \<times> (stream \<times> string) list \<times> FileSystemType) option" where
  "session ls =
     map_option (\<lambda>(r, w). (r, written w, FileSystem w))
       (executeProgram 12 \<lparr>args = shellProgram, pty = False, user = ''bob''\<rparr> (init_world ls))"

text \<open>
  The same file system seen from another command context: its own input lines, nothing
  written yet, a writer that does not fail.
\<close>

definition other_streams :: "world \<Rightarrow> string list \<Rightarrow> world" where
  "other_streams w ls = w\<lparr>stdin := ls, written := [], write_fails := (\<lambda>_. False)\<rparr>"

text \<open>
  The shape of the file system that the commands rely on: every pointer that is stored
  refers to an allocated node, every directory node has a map of children, and the root
  and the current directory are directories.
\<close>

definition nodes_ok :: "world \<Rightarrow> bool" where
  "nodes_ok w =
     (\<forall>a < length (nodes w).
         (IsDir (node_at w a) \<longrightarrow> Children (node_at w a) \<noteq> None) \<and>
         (\<forall>name c. child w a name = Some c \<longrightarrow> c < length (nodes w)))"

definition fs_ok :: "world \<Rightarrow> bool" where
  "fs_ok w =
     (Current (FileSystem w) < length (nodes w) \<and> IsDir (node_at w (Current (FileSystem w))) \<and>
      Root (FileSystem w) < length (nodes w) \<and> IsDir (node_at w (Root (FileSystem w))) \<and>
      (\<forall>a < length (nodes w).
         (IsDir (node_at w a) \<longrightarrow> Children (node_at w a) \<noteq> None) \<and>
         (\<forall>name c. child w a name = Some c \<longrightarrow> c < length (nodes w))))"


section \<open>The executor\<close>

text \<open>
  Claim C1. For every command context the executor returns status 0 when argv is empty;
  when the first element of argv is not a key of the registry, it makes exactly one write
  call, of the line \<open>name: command not found\<close> on stderr, changes nothing else and
  returns status 127 (with the writer's answer as error); otherwise it returns what the
  registered handler returns on the same context and world.
\<close>

theorem executeProgram_contract:
  "(args ctx = [] \<longrightarrow> executeProgram (Suc n) ctx w = Some (Return 0 None, w)) \<and>
   (\<forall>name rest. args ctx = name # rest \<and> map_of commands name = None \<longrightarrow>
      (\<exists>e. executeProgram (Suc n) ctx w =
         Some (Return 127 e,
               w\<lparr>written := written w @ [(Stderr, name @ '': command not found'' @ [LF])]\<rparr>))) \<and>
   (\<forall>name rest c. args ctx = name # rest \<and> map_of commands name = Some c \<longrightarrow>
      executeProgram (Suc n) ctx w = execute n c ctx w)"
  by (simp add: Fprint_def Let_def)

theorem executeProgram_contract_witness:
  "executeProgram (Suc (Suc 0)) \<lparr>args = [], pty = False, user = ''bob''\<rparr> (init_world []) =
     Some (Return 0 None, init_world []) \<and>
   map_of commands ''foo'' = None \<and>
   (\<exists>e. executeProgram (Suc (Suc 0)) \<lparr>args = [''foo'', ''x''], pty = False, user = ''bob''\<rparr>
          (init_world []) =
     Some (Return 127 e,
           (init_world [])\<lparr>written := [(Stderr, ''foo: command not found'' @ [LF])]\<rparr>)) \<and>
   map_of commands ''false'' = Some cmdFalse \<and>
   executeProgram (Suc (Suc 0)) \<lparr>args = [''false''], pty = False, user = ''bob''\<rparr>
       (init_world []) =
     Some (Return 1 None, init_world [])"
  using executeProgram_contract
      [of "\<lparr>args = [], pty = False, user = ''bob''\<rparr>" "Suc 0" "init_world []"]
    executeProgram_contract
      [of "\<lparr>args = [''foo'', ''x''], pty = False, user = ''bob''\<rparr>" "Suc 0" "init_world []"]
    executeProgram_contract
      [of "\<lparr>args = [''false''], pty = False, user = ''bob''\<rparr>" "Suc 0" "init_world []"]
  by (simp add: commands_def init_world_def cmdFalse_execute_def)

lemma init_world_simps:
  "nodes (init_world ls) = init_nodes" "FileSystem (init_world ls) = init_FileSystem"
  "written (init_world ls) = []" "stdin (init_world ls) = ls"
  "write_fails (init_world ls) = (\<lambda>_. False)"
  by (simp_all add: init_world_def)

section \<open>The \<open>exit\<close> line of the shell\<close>












section \<open>\<open>touch\<close>\<close>

text \<open>What the assignment to an entry of a directory changes.\<close>

lemma set_child_Some:
  assumes "Children (node_at w d) = Some ch"
  shows "set_child w d name n =
     Some (w\<lparr>nodes := (nodes w)[d := (node_at w d)\<lparr>Children := Some (AList.update name (length (nodes w)) ch)\<rparr>] @ [n]\<rparr>)"
  using assms by (simp add: set_child_def)

lemma set_child_effect:
  assumes ch: "Children (node_at w d) = Some ch" and d: "d < length (nodes w)"
    and s: "set_child w d name n = Some w'"
  shows "FileSystem w' = FileSystem w" and "written w' = written w" and "stdin w' = stdin w"
    and "write_fails w' = write_fails w"
    and "length (nodes w') = Suc (length (nodes w))"
    and "Children (node_at w' d) = Some (AList.update name (length (nodes w)) ch)"
    and "node_at w' (length (nodes w)) = n"
    and "\<And>b. b < length (nodes w) \<Longrightarrow> b \<noteq> d \<Longrightarrow> node_at w' b = node_at w b"
proof -
  have w': "w' = w\<lparr>nodes := (nodes w)[d := (node_at w d)\<lparr>Children := Some (AList.update name (length (nodes w)) ch)\<rparr>] @ [n]\<rparr>"
    using s set_child_Some [OF ch, of name n] by simp
  show "FileSystem w' = FileSystem w" "written w' = written w" "stdin w' = stdin w"
    "write_fails w' = write_fails w"
    by (simp_all add: w')
  show "length (nodes w') = Suc (length (nodes w))" by (simp add: w')
  show "Children (node_at w' d) = Some (AList.update name (length (nodes w)) ch)"
    using d by (simp add: w' node_at_def nth_append)
  show "node_at w' (length (nodes w)) = n"
    by (simp add: w' node_at_def nth_append)
  show "\<And>b. b < length (nodes w) \<Longrightarrow> b \<noteq> d \<Longrightarrow> node_at w' b = node_at w b"
    by (simp add: w' node_at_def nth_append)
qed

lemma set_child_child:
  assumes ch: "Children (node_at w d) = Some ch" and d: "d < length (nodes w)"
    and s: "set_child w d name n = Some w'"
  shows "child w' d g = (if g = name then Some (length (nodes w)) else child w d g)"
  using set_child_effect(6) [OF ch d s] ch
  by (simp add: child_def update_conv')

lemma set_child_new_file:
  assumes ch: "Children (node_at w d) = Some ch" and d: "d < length (nodes w)"
    and s: "set_child w d name new_file = Some w'"
  shows "empty_file_at w' d name"
  using set_child_child [OF ch d s, of name] set_child_effect(5,7) [OF ch d s] d
  by (simp add: empty_file_at_def)

lemma set_child_keeps_empty:
  assumes ch: "Children (node_at w d) = Some ch" and d: "d < length (nodes w)"
    and s: "set_child w d name new_file = Some w'"
    and e: "empty_file_at w d g"
  shows "empty_file_at w' d g"
proof (cases "g = name")
  case True
  then show ?thesis using set_child_new_file [OF ch d s] by simp
next
  case False
  from e obtain a where a: "child w d g = Some a" "a < length (nodes w)" "a \<noteq> d"
    "node_at w a = new_file"
    by (auto simp: empty_file_at_def split: option.splits)
  have "child w' d g = Some a" using set_child_child [OF ch d s, of g] False a(1) by simp
  moreover have "node_at w' a = new_file" using set_child_effect(8) [OF ch d s a(2,3)] a(4) by simp
  moreover have "a < length (nodes w')" using set_child_effect(5) [OF ch d s] a(2) by simp
  ultimately show ?thesis using a(3) by (simp add: empty_file_at_def)
qed

lemma touch_files_effect:
  assumes "Current (FileSystem w) < length (nodes w)"
    and "Children (node_at w (Current (FileSystem w))) \<noteq> None"
  shows "\<exists>w'. touch_files files w = Some w' \<and> FileSystem w' = FileSystem w \<and>
           written w' = written w \<and> stdin w' = stdin w \<and>
           (\<forall>f \<in> set files. empty_file_at w' (Current (FileSystem w)) f) \<and>
           (\<forall>g. empty_file_at w (Current (FileSystem w)) g \<longrightarrow>
                empty_file_at w' (Current (FileSystem w)) g) \<and>
           (\<forall>g. g \<notin> set files \<longrightarrow>
                child w' (Current (FileSystem w)) g = child w (Current (FileSystem w)) g)"
  using assms
proof (induction files arbitrary: w)
  case Nil
  show ?case by simp
next
  case (Cons f files)
  let ?d = "Current (FileSystem w)"
  from Cons.prems(2) obtain ch where ch: "Children (node_at w ?d) = Some ch" by auto
  obtain w1 where s: "set_child w ?d f new_file = Some w1"
    using set_child_Some [OF ch] by simp
  note eff = set_child_effect [OF ch Cons.prems(1) s]
  have d1: "Current (FileSystem w1) = ?d" using eff(1) by simp
  have p1: "Current (FileSystem w1) < length (nodes w1)" using eff(1,5) Cons.prems(1) by simp
  have p2: "Children (node_at w1 (Current (FileSystem w1))) \<noteq> None" using eff(1,6) by simp
  from Cons.IH [OF p1 p2] obtain w' where w':
    "touch_files files w1 = Some w'" "FileSystem w' = FileSystem w1"
    "written w' = written w1" "stdin w' = stdin w1"
    "\<forall>f \<in> set files. empty_file_at w' ?d f"
    "\<forall>g. empty_file_at w1 ?d g \<longrightarrow> empty_file_at w' ?d g"
    "\<forall>g. g \<notin> set files \<longrightarrow> child w' ?d g = child w1 ?d g"
    unfolding d1 by blast
  have t: "touch_files (f # files) w = Some w'" using s w'(1) by simp
  have a: "empty_file_at w' ?d f"
    using w'(6) set_child_new_file [OF ch Cons.prems(1) s] by blast
  have b: "\<forall>g. empty_file_at w ?d g \<longrightarrow> empty_file_at w' ?d g"
    using w'(6) set_child_keeps_empty [OF ch Cons.prems(1) s] by blast
  have c: "\<forall>g. g \<notin> set (f # files) \<longrightarrow> child w' ?d g = child w ?d g"
    using w'(7) set_child_child [OF ch Cons.prems(1) s] by simp
  show ?case
    using t a b c w'(2,3,4,5) eff(1,2,3) by simp
qed

text \<open>
  What \<open>touch\<close> leaves alone: the nodes that existed before, other than the current
  directory, and the flag and content of the current directory itself. Each name is
  given a node that did not exist before.
\<close>

lemma set_child_dir_fields:
  assumes ch: "Children (node_at w d) = Some ch" and d: "d < length (nodes w)"
    and s: "set_child w d name n = Some w'"
  shows "IsDir (node_at w' d) = IsDir (node_at w d)"
    and "Content (node_at w' d) = Content (node_at w d)"
proof -
  have w': "w' = w\<lparr>nodes := (nodes w)[d := (node_at w d)\<lparr>Children := Some (AList.update name (length (nodes w)) ch)\<rparr>] @ [n]\<rparr>"
    using s set_child_Some [OF ch, of name n] by simp
  show "IsDir (node_at w' d) = IsDir (node_at w d)"
    using d by (simp add: w' node_at_def nth_append)
  show "Content (node_at w' d) = Content (node_at w d)"
    using d by (simp add: w' node_at_def nth_append)
qed

lemma touch_files_frame:
  assumes "Current (FileSystem w) < length (nodes w)"
    and "Children (node_at w (Current (FileSystem w))) \<noteq> None"
  shows "\<exists>w'. touch_files files w = Some w' \<and> write_fails w' = write_fails w \<and>
           length (nodes w') = length (nodes w) + length files \<and>
           (\<forall>b < length (nodes w). b \<noteq> Current (FileSystem w) \<longrightarrow> node_at w' b = node_at w b) \<and>
           IsDir (node_at w' (Current (FileSystem w))) = IsDir (node_at w (Current (FileSystem w))) \<and>
           Content (node_at w' (Current (FileSystem w))) =
             Content (node_at w (Current (FileSystem w))) \<and>
           (\<forall>g. g \<notin> set files \<longrightarrow>
                child w' (Current (FileSystem w)) g = child w (Current (FileSystem w)) g) \<and>
           (\<forall>f \<in> set files. \<exists>a. child w' (Current (FileSystem w)) f = Some a \<and>
                length (nodes w) \<le> a)"
  using assms
proof (induction files arbitrary: w)
  case Nil
  show ?case by simp
next
  case (Cons f files)
  let ?d = "Current (FileSystem w)"
  from Cons.prems(2) obtain ch where ch: "Children (node_at w ?d) = Some ch" by auto
  obtain w1 where s: "set_child w ?d f new_file = Some w1"
    using set_child_Some [OF ch] by simp
  note eff = set_child_effect [OF ch Cons.prems(1) s]
  note fld = set_child_dir_fields [OF ch Cons.prems(1) s]
  note chd = set_child_child [OF ch Cons.prems(1) s]
  have d1: "Current (FileSystem w1) = ?d" using eff(1) by simp
  have p1: "Current (FileSystem w1) < length (nodes w1)" using eff(1,5) Cons.prems(1) by simp
  have p2: "Children (node_at w1 (Current (FileSystem w1))) \<noteq> None" using eff(1,6) by simp
  from Cons.IH [OF p1 p2] obtain w' where w':
    "touch_files files w1 = Some w'" "write_fails w' = write_fails w1"
    "length (nodes w') = length (nodes w1) + length files"
    "\<forall>b < length (nodes w1). b \<noteq> ?d \<longrightarrow> node_at w' b = node_at w1 b"
    "IsDir (node_at w' ?d) = IsDir (node_at w1 ?d)"
    "Content (node_at w' ?d) = Content (node_at w1 ?d)"
    "\<forall>g. g \<notin> set files \<longrightarrow> child w' ?d g = child w1 ?d g"
    "\<forall>f \<in> set files. \<exists>a. child w' ?d f = Some a \<and> length (nodes w1) \<le> a"
    unfolding d1 by blast
  have t: "touch_files (f # files) w = Some w'" using s w'(1) by simp
  have len: "length (nodes w') = length (nodes w) + length (f # files)"
    using w'(3) eff(5) by simp
  have frame: "\<forall>b < length (nodes w). b \<noteq> ?d \<longrightarrow> node_at w' b = node_at w b"
  proof (intro allI impI)
    fix b assume b: "b < length (nodes w)" "b \<noteq> ?d"
    then have "node_at w' b = node_at w1 b" using w'(4) eff(5) by simp
    then show "node_at w' b = node_at w b" using eff(8) [OF b] by simp
  qed
  have other: "\<forall>g. g \<notin> set (f # files) \<longrightarrow> child w' ?d g = child w ?d g"
    using w'(7) chd by simp
  have fresh: "\<exists>a. child w' ?d g = Some a \<and> length (nodes w) \<le> a" if g: "g \<in> set (f # files)" for g
  proof (cases "g \<in> set files")
    case True
    then obtain a where "child w' ?d g = Some a" "length (nodes w1) \<le> a" using w'(8) by blast
    then show ?thesis using eff(5) by auto
  next
    case False
    then have "g = f" using g by simp
    then have "child w' ?d g = Some (length (nodes w))" using False w'(7) chd by simp
    then show ?thesis by simp
  qed
  show ?case
    using t len frame other fresh w'(2,5,6) eff(4) fld by (intro exI [of _ w']) simp
qed

text \<open>
  Claim C2, as the code has it. With no file argument \<open>touch\<close> writes its usage line
  on stderr and returns 1. With file arguments, in a current directory whose map of
  children exists, it returns 0 and writes nothing, whoever the user is and whether or
  not a name exists already: afterwards every name given is an entry of the current
  directory that refers to a node allocated by this call, which is an empty file; the
  other entries of the current directory refer to the nodes they referred to before;
  every node that existed before, other than the current directory, is as it was, with
  its content; the current directory is still a directory with the content it had; and
  one node has been allocated for each argument.
\<close>

theorem touch_replaces_entries:
  "(length (args ctx) < 2 \<longrightarrow>
      (\<exists>e. cmdTouch_execute ctx w =
         (Return 1 e, w\<lparr>written := written w @ [(Stderr, touch_usage @ [LF])]\<rparr>))) \<and>
   (2 \<le> length (args ctx) \<and> Current (FileSystem w) < length (nodes w) \<and>
    Children (node_at w (Current (FileSystem w))) \<noteq> None \<longrightarrow>
      (\<exists>w'. cmdTouch_execute ctx w = (Return 0 None, w') \<and>
         written w' = written w \<and> stdin w' = stdin w \<and> write_fails w' = write_fails w \<and>
         FileSystem w' = FileSystem w \<and>
         (\<forall>f \<in> set (tl (args ctx)).
            \<exists>a. child w' (Current (FileSystem w)) f = Some a \<and> length (nodes w) \<le> a \<and>
              node_at w' a = new_file) \<and>
         (\<forall>g. g \<notin> set (tl (args ctx)) \<longrightarrow>
            child w' (Current (FileSystem w)) g = child w (Current (FileSystem w)) g) \<and>
         (\<forall>b < length (nodes w). b \<noteq> Current (FileSystem w) \<longrightarrow>
            node_at w' b = node_at w b) \<and>
         IsDir (node_at w' (Current (FileSystem w))) = IsDir (node_at w (Current (FileSystem w))) \<and>
         Content (node_at w' (Current (FileSystem w))) =
           Content (node_at w (Current (FileSystem w))) \<and>
         length (nodes w') = length (nodes w) + length (tl (args ctx))))"
proof (intro conjI impI)
  assume "length (args ctx) < 2"
  then show "\<exists>e. cmdTouch_execute ctx w =
      (Return 1 e, w\<lparr>written := written w @ [(Stderr, touch_usage @ [LF])]\<rparr>)"
    by (simp add: cmdTouch_execute_def Fprintln_def Fprint_def Let_def)
next
  let ?d = "Current (FileSystem w)"
  let ?fs = "tl (args ctx)"
  assume a: "2 \<le> length (args ctx) \<and> ?d < length (nodes w) \<and>
    Children (node_at w ?d) \<noteq> None"
  then obtain w' where w': "touch_files ?fs w = Some w'"
    "FileSystem w' = FileSystem w" "written w' = written w" "stdin w' = stdin w"
    "\<forall>f \<in> set ?fs. empty_file_at w' ?d f"
    using touch_files_effect [of w ?fs] by blast
  from a obtain w2 where w2: "touch_files ?fs w = Some w2" "write_fails w2 = write_fails w"
    "length (nodes w2) = length (nodes w) + length ?fs"
    "\<forall>b < length (nodes w). b \<noteq> ?d \<longrightarrow> node_at w2 b = node_at w b"
    "IsDir (node_at w2 ?d) = IsDir (node_at w ?d)"
    "Content (node_at w2 ?d) = Content (node_at w ?d)"
    "\<forall>g. g \<notin> set ?fs \<longrightarrow> child w2 ?d g = child w ?d g"
    "\<forall>f \<in> set ?fs. \<exists>a. child w2 ?d f = Some a \<and> length (nodes w) \<le> a"
    using touch_files_frame [of w ?fs] by blast
  have eq: "w2 = w'" using w'(1) w2(1) by simp
  have r: "cmdTouch_execute ctx w = (Return 0 None, w')"
    using a w'(1) by (simp add: cmdTouch_execute_def)
  have n: "\<forall>f \<in> set ?fs. \<exists>a. child w' ?d f = Some a \<and> length (nodes w) \<le> a \<and>
      node_at w' a = new_file"
  proof
    fix f assume f: "f \<in> set ?fs"
    then obtain x where x: "child w' ?d f = Some x" "length (nodes w) \<le> x"
      using w2(8) eq by blast
    have "empty_file_at w' ?d f" using w'(5) f by blast
    then have "node_at w' x = new_file" using x(1) by (simp add: empty_file_at_def)
    then show "\<exists>a. child w' ?d f = Some a \<and> length (nodes w) \<le> a \<and> node_at w' a = new_file"
      using x by blast
  qed
  show "\<exists>w'. cmdTouch_execute ctx w = (Return 0 None, w') \<and>
         written w' = written w \<and> stdin w' = stdin w \<and> write_fails w' = write_fails w \<and>
         FileSystem w' = FileSystem w \<and>
         (\<forall>f \<in> set ?fs.
            \<exists>a. child w' ?d f = Some a \<and> length (nodes w) \<le> a \<and> node_at w' a = new_file) \<and>
         (\<forall>g. g \<notin> set ?fs \<longrightarrow> child w' ?d g = child w ?d g) \<and>
         (\<forall>b < length (nodes w). b \<noteq> ?d \<longrightarrow> node_at w' b = node_at w b) \<and>
         IsDir (node_at w' ?d) = IsDir (node_at w ?d) \<and>
         Content (node_at w' ?d) = Content (node_at w ?d) \<and>
         length (nodes w') = length (nodes w) + length ?fs"
    using r n w'(2,3,4) w2(2-7) [unfolded eq] by (intro exI [of _ w']) simp
qed

theorem touch_replaces_entries_witness:
  "(\<exists>e. cmdTouch_execute \<lparr>args = [''touch''], pty = False, user = ''bob''\<rparr> (init_world []) =
      (Return 1 e, (init_world [])\<lparr>written := [(Stderr, touch_usage @ [LF])]\<rparr>)) \<and>
   (\<exists>w'. cmdTouch_execute \<lparr>args = [''touch'', ''usr.txt''], pty = False, user = ''bob''\<rparr>
            (init_world []) = (Return 0 None, w') \<and>
      written w' = [] \<and>
      (\<exists>a. child w' 0 ''usr.txt'' = Some a \<and> 4 \<le> a \<and> node_at w' a = new_file) \<and>
      child w' 0 ''pwd.txt'' = Some 2 \<and> Content (node_at w' 2) = pwd_txt \<and>
      Content (node_at w' 3) = checking_account_txt \<and> length (nodes w') = 5)"
proof -
  have "length (nodes (init_world [])) = 4"
    by (simp add: init_world_simps init_nodes_def)
  moreover have "Content (node_at (init_world []) 2) = pwd_txt"
    "Content (node_at (init_world []) 3) = checking_account_txt"
    by (simp_all add: init_world_simps init_nodes_def node_at_def)
  ultimately show ?thesis
    using touch_replaces_entries
        [of "\<lparr>args = [''touch''], pty = False, user = ''bob''\<rparr>" "init_world []"]
      touch_replaces_entries
        [of "\<lparr>args = [''touch'', ''usr.txt''], pty = False, user = ''bob''\<rparr>" "init_world []"]
    by (fastforce simp: init_world_simps init_FileSystem_def init_nodes_def node_at_def child_def)
qed

text \<open>
  The claim as the specification states it fails on the bait file \<open>usr.txt\<close>: for the
  user \<open>bob\<close> the command returns 0 and writes no permission-denied line, and for
  \<open>root\<close> the content of the file is not left intact, since the entry refers to a new
  empty node afterwards.
\<close>

theorem touch_permission_counterexample:
  "fst (cmdTouch_execute \<lparr>args = [''touch'', ''usr.txt''], pty = False, user = ''bob''\<rparr>
          (init_world [])) = Return 0 None \<and>
   written (snd (cmdTouch_execute \<lparr>args = [''touch'', ''usr.txt''], pty = False, user = ''bob''\<rparr>
          (init_world []))) = [] \<and>
   child (init_world []) 0 ''usr.txt'' = Some 1 \<and>
   Content (node_at (init_world []) 1) = usr_txt \<and>
   child (snd (cmdTouch_execute \<lparr>args = [''touch'', ''usr.txt''], pty = False, user = ''root''\<rparr>
          (init_world []))) 0 ''usr.txt'' = Some 4 \<and>
   Content (node_at (snd (cmdTouch_execute
          \<lparr>args = [''touch'', ''usr.txt''], pty = False, user = ''root''\<rparr> (init_world []))) 4) = []"
  by (simp add: cmdTouch_execute_def set_child_def init_world_simps init_FileSystem_def
      init_nodes_def node_at_def child_def new_file_def)

section \<open>\<open>cat\<close>\<close>

text \<open>
  Claim C3, as the code has it. With no file argument \<open>cat\<close> writes
  \<open>cat: missing operand\<close> on stderr and returns 1. With one file argument it writes the
  content of the file and a newline on stdout and returns 0 when the name is an entry of
  the current directory that is not a directory, and otherwise writes
  \<open>cat: file: No such file or directory\<close> on stderr and returns 1.
\<close>

theorem cat_first_file:
  "(length (args ctx) < 2 \<longrightarrow>
      (\<exists>e. cmdCat_execute ctx w =
         (Return 1 e, w\<lparr>written := written w @ [(Stderr, ''cat: missing operand'' @ [LF])]\<rparr>))) \<and>
   (\<forall>c file a. args ctx = [c, file] \<and> child w (Current (FileSystem w)) file = Some a \<and>
        \<not> IsDir (node_at w a) \<longrightarrow>
      (\<exists>e. cmdCat_execute ctx w =
         (Return 0 e, w\<lparr>written := written w @ [(Stdout, Content (node_at w a) @ [LF])]\<rparr>))) \<and>
   (\<forall>c file. args ctx = [c, file] \<and>
        (\<forall>a. child w (Current (FileSystem w)) file = Some a \<longrightarrow> IsDir (node_at w a)) \<longrightarrow>
      (\<exists>e. cmdCat_execute ctx w =
         (Return 1 e,
          w\<lparr>written := written w @
             [(Stderr, ''cat: '' @ file @ '': No such file or directory'' @ [LF])]\<rparr>)))"
  by (auto simp: cmdCat_execute_def Fprintln_def Fprint_def Let_def split: option.splits)

theorem cat_first_file_witness:
  "(\<exists>e. cmdCat_execute \<lparr>args = [''cat''], pty = False, user = ''bob''\<rparr> (init_world []) =
      (Return 1 e, (init_world [])\<lparr>written := [(Stderr, ''cat: missing operand'' @ [LF])]\<rparr>)) \<and>
   (\<exists>e. cmdCat_execute \<lparr>args = [''cat'', ''usr.txt''], pty = False, user = ''bob''\<rparr> (init_world []) =
      (Return 0 e, (init_world [])\<lparr>written := [(Stdout, usr_txt @ [LF])]\<rparr>)) \<and>
   (\<exists>e. cmdCat_execute \<lparr>args = [''cat'', ''nope''], pty = False, user = ''bob''\<rparr> (init_world []) =
      (Return 1 e, (init_world [])\<lparr>written :=
         [(Stderr, ''cat: nope: No such file or directory'' @ [LF])]\<rparr>))"
  using cat_first_file [of "\<lparr>args = [''cat''], pty = False, user = ''bob''\<rparr>" "init_world []"]
    cat_first_file [of "\<lparr>args = [''cat'', ''usr.txt''], pty = False, user = ''bob''\<rparr>" "init_world []"]
    cat_first_file [of "\<lparr>args = [''cat'', ''nope''], pty = False, user = ''bob''\<rparr>" "init_world []"]
  by (simp add: init_world_simps init_FileSystem_def init_nodes_def node_at_def child_def)

text \<open>
  The claim as the specification states it fails without arguments: the command is not
  quiet and does not return 0.
\<close>

theorem cat_no_operand_counterexample:
  "cmdCat_execute \<lparr>args = [''cat''], pty = False, user = ''bob''\<rparr> (init_world []) =
     (Return 1 None, (init_world [])\<lparr>written := [(Stderr, ''cat: missing operand'' @ [LF])]\<rparr>)"
  by (simp add: cmdCat_execute_def Fprintln_def Fprint_def init_world_def)

text \<open>
  With more than one argument the loop of \<^verbatim>\<open>cmdCat.execute\<close> returns after the
  first file: the second argument is never looked at and the status is that of the first.
\<close>

lemma cat_stops_after_first_file:
  "cmdCat_execute \<lparr>args = [''cat'', ''usr.txt'', ''nope''], pty = False, user = ''bob''\<rparr>
       (init_world []) =
     (Return 0 None, (init_world [])\<lparr>written := [(Stdout, usr_txt @ [LF])]\<rparr>)"
  by (simp add: cmdCat_execute_def Fprintln_def Fprint_def init_world_def init_FileSystem_def
      init_nodes_def node_at_def child_def)

section \<open>\<open>cd\<close> and \<open>pwd\<close>\<close>

lemmas cmd_defs = cmdTrue_execute_def cmdFalse_execute_def cmdEcho_execute_def cmdPwd_execute_def
  cmdMkdir_execute_def cmdCd_execute_def cmdCat_execute_def cmdLs_execute_def cmdTouch_execute_def
  Fprintln_def Fprint_def ReadLine_def Fields_def IsSpace_def RuneError_def Clean_def set_child_def child_def
  node_at_def new_dir_def new_file_def shell_prompt_def shellProgram_def commands_def Let_def

text \<open>
  Claim C5 at its own example. After \<open>mkdir a/b/c\<close> and \<open>cd a/b/c\<close> the command
  \<open>pwd\<close> writes \<open>a/b/c\<close> and a newline, not \<open>/a/b/c\<close>: \<^verbatim>\<open>cmdCd.execute\<close>
  stores the cleaned argument in \<^verbatim>\<open>FileSystem.Path\<close>, and \<open>pwd\<close> writes that string.
  The shell ends at the end of its input with status 0.
\<close>

theorem mkdir_cd_pwd_prints_relative_path:
  "session [''mkdir a/b/c'', ''cd a/b/c'', ''pwd''] =
     Some (Return 0 (Some EOF),
           [(Stdout, []), (Stdout, []), (Stdout, []), (Stdout, ''a/b/c'' @ [LF]), (Stdout, [])],
           \<lparr>Root = 0, Current = 6, Path = ''a/b/c''\<rparr>)"
  by (simp add: session_def eval_nat_numeral cmd_defs init_world_def init_nodes_def init_FileSystem_def)

text \<open>
  Claim C6 at two inputs. In the directory \<open>a\<close> below the root, \<open>cd ..\<close> returns
  0 and leaves the current directory at \<open>a\<close> (node 4) instead of moving to the root,
  and \<open>pwd\<close> then writes \<open>..\<close>. At the root, \<open>cd ..\<close> returns 0 and leaves the
  current directory at the root, but the path that \<open>pwd\<close> writes changes from \<open>/\<close> to
  \<open>..\<close>.
\<close>

theorem cd_dotdot_is_skipped:
  "session [''mkdir a'', ''cd a'', ''cd ..'', ''pwd''] =
     Some (Return 0 (Some EOF),
           [(Stdout, []), (Stdout, []), (Stdout, []), (Stdout, []), (Stdout, ''..'' @ [LF]),
            (Stdout, [])],
           \<lparr>Root = 0, Current = 4, Path = ''..''\<rparr>) \<and>
   session [''cd ..'', ''pwd''] =
     Some (Return 0 (Some EOF),
           [(Stdout, []), (Stdout, []), (Stdout, ''..'' @ [LF]), (Stdout, [])],
           \<lparr>Root = 0, Current = 0, Path = ''..''\<rparr>)"
  by (simp add: session_def eval_nat_numeral cmd_defs init_world_def init_nodes_def init_FileSystem_def)

text \<open>In every world, \<open>cd ..\<close> changes the path string and nothing else.\<close>

lemma cd_parent_changes_path_only:
  "cmdCd_execute (ctx\<lparr>args := [''cd'', ''..'']\<rparr>) w =
     (Return 0 None, w\<lparr>FileSystem := (FileSystem w)\<lparr>Path := ''..''\<rparr>\<rparr>)"
  by (simp add: cmdCd_execute_def Clean_def)

section \<open>One file system for all command contexts\<close>

lemma ls_files_all:
  "write_fails w = (\<lambda>_. False) \<Longrightarrow>
   ls_files names w = (Return 0 None, w\<lparr>written := written w @ map (\<lambda>n. (Stdout, n @ [LF])) names\<rparr>)"
proof (induction names arbitrary: w)
  case Nil
  show ?case by simp
next
  case (Cons n names)
  have "ls_files (n # names) w = ls_files names (w\<lparr>written := written w @ [(Stdout, n @ [LF])]\<rparr>)"
    using Cons.prems by (simp add: Fprintln_def Fprint_def)
  also have "\<dots> = (Return 0 None,
      w\<lparr>written := written w @ map (\<lambda>n. (Stdout, n @ [LF])) (n # names)\<rparr>)"
    using Cons.prems by (subst Cons.IH) simp_all
  finally show ?case .
qed

lemma other_streams_simps:
  "nodes (other_streams w ls) = nodes w" "FileSystem (other_streams w ls) = FileSystem w"
  "written (other_streams w ls) = []" "write_fails (other_streams w ls) = (\<lambda>_. False)"
  "node_at (other_streams w ls) a = node_at w a" "child (other_streams w ls) d n = child w d n"
  by (simp_all add: other_streams_def node_at_def child_def)

text \<open>
  Claim C10. The file system is part of the world and not of the command context. A file
  that \<open>touch\<close> creates in one context is there for \<open>cat\<close> and \<open>ls\<close> run in any
  other context, whatever the users and streams of the contexts: \<open>cat\<close> writes its
  empty content and \<open>ls\<close> lists its name. A \<open>cd\<close> that succeeds in one context sets
  the path that \<open>pwd\<close> writes in any other context.
\<close>

theorem filesystem_is_process_global:
  "(args c1 = [''touch'', f] \<and> args c2 = [''cat'', f] \<and>
    Current (FileSystem w) < length (nodes w) \<and>
    Children (node_at w (Current (FileSystem w))) \<noteq> None \<longrightarrow>
      (\<exists>w1. cmdTouch_execute c1 w = (Return 0 None, w1) \<and>
         cmdCat_execute c2 (other_streams w1 ls) =
           (Return 0 None, (other_streams w1 ls)\<lparr>written := [(Stdout, [LF])]\<rparr>) \<and>
         (\<exists>w2. cmdLs_execute c3 (other_streams w1 ls) = (Return 0 None, w2) \<and>
            (Stdout, f @ [LF]) \<in> set (written w2)))) \<and>
   (args c4 = [''cd'', dir] \<and> cmdCd_execute c4 w = (Return 0 None, w3) \<longrightarrow>
      Path (FileSystem w3) = Clean dir \<and>
      cmdPwd_execute c5 (other_streams w3 ls) =
        (Return 0 None, (other_streams w3 ls)\<lparr>written := [(Stdout, Clean dir @ [LF])]\<rparr>))"
proof (intro conjI impI)
  assume a: "args c1 = [''touch'', f] \<and> args c2 = [''cat'', f] \<and>
    Current (FileSystem w) < length (nodes w) \<and>
    Children (node_at w (Current (FileSystem w))) \<noteq> None"
  let ?d = "Current (FileSystem w)"
  from a obtain w1 where w1: "touch_files [f] w = Some w1" "FileSystem w1 = FileSystem w"
    "empty_file_at w1 ?d f"
    using touch_files_effect [of w "[f]"] by auto
  from w1(3) obtain x where x: "child w1 ?d f = Some x" "node_at w1 x = new_file"
    by (auto simp: empty_file_at_def split: option.splits)
  have t: "cmdTouch_execute c1 w = (Return 0 None, w1)"
    using a w1(1) by (simp add: cmdTouch_execute_def)
  have c: "cmdCat_execute c2 (other_streams w1 ls) =
      (Return 0 None, (other_streams w1 ls)\<lparr>written := [(Stdout, [LF])]\<rparr>)"
    using a x w1(2)
    by (simp add: cmdCat_execute_def other_streams_simps new_file_def Fprintln_def Fprint_def)
  from x(1) obtain ch where ch: "Children (node_at w1 ?d) = Some ch" "map_of ch f = Some x"
    by (auto simp: child_def split: option.splits)
  have "f \<in> fst ` set ch" using ch(2) by (metis map_of_eq_None_iff option.distinct(1))
  then have m: "(Stdout, f @ [LF]) \<in> set (map (\<lambda>n. (Stdout, n @ [LF])) (map fst ch))"
    by auto
  have l: "cmdLs_execute c3 (other_streams w1 ls) =
      (Return 0 None, (other_streams w1 ls)\<lparr>written := map (\<lambda>n. (Stdout, n @ [LF])) (map fst ch)\<rparr>)"
    using ch(1) w1(2) ls_files_all [of "other_streams w1 ls" "map fst ch"]
    by (simp add: cmdLs_execute_def other_streams_simps)
  show "\<exists>w1. cmdTouch_execute c1 w = (Return 0 None, w1) \<and>
         cmdCat_execute c2 (other_streams w1 ls) =
           (Return 0 None, (other_streams w1 ls)\<lparr>written := [(Stdout, [LF])]\<rparr>) \<and>
         (\<exists>w2. cmdLs_execute c3 (other_streams w1 ls) = (Return 0 None, w2) \<and>
            (Stdout, f @ [LF]) \<in> set (written w2))"
    using t c l m by (intro exI [of _ w1]) simp
next
  assume b: "args c4 = [''cd'', dir] \<and> cmdCd_execute c4 w = (Return 0 None, w3)"
  then show "Path (FileSystem w3) = Clean dir"
    by (auto simp: cmdCd_execute_def Let_def Fprint_def split: if_splits option.splits)
  then show "cmdPwd_execute c5 (other_streams w3 ls) =
        (Return 0 None, (other_streams w3 ls)\<lparr>written := [(Stdout, Clean dir @ [LF])]\<rparr>)"
    by (simp add: cmdPwd_execute_def other_streams_simps Fprintln_def Fprint_def)
qed

theorem filesystem_is_process_global_witness:
  "(\<exists>w1. cmdTouch_execute \<lparr>args = [''touch'', ''f''], pty = False, user = ''bob''\<rparr> (init_world []) =
        (Return 0 None, w1) \<and>
      cmdCat_execute \<lparr>args = [''cat'', ''f''], pty = True, user = ''alice''\<rparr>
          (other_streams w1 [''x'']) =
        (Return 0 None, (other_streams w1 [''x''])\<lparr>written := [(Stdout, [LF])]\<rparr>) \<and>
      (\<exists>w2. cmdLs_execute \<lparr>args = [''ls''], pty = True, user = ''root''\<rparr>
            (other_streams w1 [''x'']) = (Return 0 None, w2) \<and>
         (Stdout, ''f'' @ [LF]) \<in> set (written w2))) \<and>
   cmdCd_execute \<lparr>args = [''cd'', ''d/''], pty = False, user = ''bob''\<rparr>
       (snd (cmdMkdir_execute \<lparr>args = [''mkdir'', ''d''], pty = False, user = ''bob''\<rparr>
          (init_world []))) =
     (Return 0 None,
      (snd (cmdMkdir_execute \<lparr>args = [''mkdir'', ''d''], pty = False, user = ''bob''\<rparr>
          (init_world [])))\<lparr>FileSystem := \<lparr>Root = 0, Current = 4, Path = ''d''\<rparr>\<rparr>) \<and>
   cmdPwd_execute \<lparr>args = [''pwd''], pty = True, user = ''alice''\<rparr>
       (other_streams
          ((snd (cmdMkdir_execute \<lparr>args = [''mkdir'', ''d''], pty = False, user = ''bob''\<rparr>
             (init_world [])))\<lparr>FileSystem := \<lparr>Root = 0, Current = 4, Path = ''d''\<rparr>\<rparr>) [''x'']) =
     (Return 0 None,
      (other_streams
          ((snd (cmdMkdir_execute \<lparr>args = [''mkdir'', ''d''], pty = False, user = ''bob''\<rparr>
             (init_world [])))\<lparr>FileSystem := \<lparr>Root = 0, Current = 4, Path = ''d''\<rparr>\<rparr>) [''x''])
        \<lparr>written := [(Stdout, ''d'' @ [LF])]\<rparr>)"
proof -
  let ?m = "snd (cmdMkdir_execute \<lparr>args = [''mkdir'', ''d''], pty = False, user = ''bob''\<rparr>
          (init_world []))"
  have cd: "cmdCd_execute \<lparr>args = [''cd'', ''d/''], pty = False, user = ''bob''\<rparr> ?m =
     (Return 0 None, ?m\<lparr>FileSystem := \<lparr>Root = 0, Current = 4, Path = ''d''\<rparr>\<rparr>)"
    by (simp add: cmd_defs init_world_def init_nodes_def init_FileSystem_def)
  have cl: "Clean ''d/'' = ''d''"
    by (simp add: Clean_def)
  have pre: "Current (FileSystem (init_world [])) < length (nodes (init_world [])) \<and>
      Children (node_at (init_world []) (Current (FileSystem (init_world [])))) \<noteq> None"
    by (simp add: init_world_simps init_FileSystem_def init_nodes_def node_at_def)
  show ?thesis
    using filesystem_is_process_global
      [where ?c1.0 = "\<lparr>args = [''touch'', ''f''], pty = False, user = ''bob''\<rparr>" and f = "''f''"
         and ?c2.0 = "\<lparr>args = [''cat'', ''f''], pty = True, user = ''alice''\<rparr>"
         and w = "init_world []" and ls = "[''x'']"
         and ?c3.0 = "\<lparr>args = [''ls''], pty = True, user = ''root''\<rparr>"
         and ?c4.0 = "\<lparr>args = [], pty = False, user = ''bob''\<rparr>"]
      filesystem_is_process_global
      [where ?c1.0 = "\<lparr>args = [], pty = False, user = ''bob''\<rparr>"
         and w = ?m and ls = "[''x'']"
         and ?c4.0 = "\<lparr>args = [''cd'', ''d/''], pty = False, user = ''bob''\<rparr>" and dir = "''d/''"
         and ?w3.0 = "?m\<lparr>FileSystem := \<lparr>Root = 0, Current = 4, Path = ''d''\<rparr>\<rparr>"
         and ?c5.0 = "\<lparr>args = [''pwd''], pty = True, user = ''alice''\<rparr>"]
      pre cl cd
    by simp
qed

section \<open>Password authentication\<close>

text \<open>
  Claim C7, as the code has it. When password authentication is enabled, an attempt with
  the valid user and the valid password succeeds, and every other attempt is rejected
  with an error whose message is empty, whatever \<^verbatim>\<open>auth.password.accepted\<close> says;
  every attempt appends one entry with the user and the password to the log. The entry
  of a valid attempt carries the configured \<open>Accepted\<close> flag, that of any other
  attempt carries \<open>False\<close>.
\<close>

theorem password_only_valid_credentials:
  "PasswordAuth_Enabled cfg \<longrightarrow>
     (\<exists>cb. getPasswordCallback cfg = Some cb \<and>
        (\<forall>conn password log.
           (conn_User conn = validUser cfg \<and> password = validPass cfg \<longrightarrow>
              cb conn password log =
                (None,
                 log @ [passwordAuthLog
                          \<lparr>User = conn_User conn, Accepted = PasswordAuth_Accepted cfg\<rparr> password])) \<and>
           (\<not> (conn_User conn = validUser cfg \<and> password = validPass cfg) \<longrightarrow>
              cb conn password log =
                (Some [],
                 log @ [passwordAuthLog \<lparr>User = conn_User conn, Accepted = False\<rparr> password]))))"
  by (simp add: getPasswordCallback_def)

theorem password_only_valid_credentials_witness:
  "\<exists>cb. getPasswordCallback \<lparr>PasswordAuth_Enabled = True, PasswordAuth_Accepted = True,
          Banner = [], validUser = ''admin'', validPass = ''secret''\<rparr> = Some cb \<and>
     cb \<lparr>conn_User = ''admin''\<rparr> ''secret'' [] =
       (None, [passwordAuthLog \<lparr>User = ''admin'', Accepted = True\<rparr> ''secret'']) \<and>
     cb \<lparr>conn_User = ''admin''\<rparr> ''guess'' [] =
       (Some [], [passwordAuthLog \<lparr>User = ''admin'', Accepted = False\<rparr> ''guess''])"
  using password_only_valid_credentials [of "\<lparr>PasswordAuth_Enabled = True,
      PasswordAuth_Accepted = True, Banner = [], validUser = ''admin'', validPass = ''secret''\<rparr>"]
  by (auto simp: getPasswordCallback_def)

text \<open>
  The claim as the specification states it fails where \<^verbatim>\<open>auth.password.accepted\<close> is
  true: a wrong password for the valid user is rejected all the same.
\<close>

theorem password_accepted_counterexample:
  "getPasswordCallback \<lparr>PasswordAuth_Enabled = True, PasswordAuth_Accepted = True,
       Banner = [], validUser = ''admin'', validPass = ''secret''\<rparr> \<noteq> None \<and>
   the (getPasswordCallback \<lparr>PasswordAuth_Enabled = True, PasswordAuth_Accepted = True,
          Banner = [], validUser = ''admin'', validPass = ''secret''\<rparr>)
       \<lparr>conn_User = ''admin''\<rparr> ''guess'' [] =
     (Some [], [passwordAuthLog \<lparr>User = ''admin'', Accepted = False\<rparr> ''guess''])"
  by (simp add: getPasswordCallback_def)

section \<open>The banner\<close>

text \<open>
  The two replacements of \<^verbatim>\<open>getBannerCallback\<close> together make the line ends uniform.
\<close>

lemma ReplaceAll_crlf: "ReplaceAll (ReplaceAll b [CR, LF] [LF]) [LF] [CR, LF] = crlf b"
proof (induction b rule: crlf.induct)
  case 1
  show ?case by simp
next
  case (2 c)
  show ?case by (simp add: CR_def LF_def)
next
  case (3 c d s)
  then show ?case by (auto simp: CR_def LF_def)
qed

text \<open>
  Claim C9, as the code has it. For every non-empty configured banner, the banner sent
  to every client is the configured string in which each line feed that has no carriage
  return in front of it is given one, with carriage return and line feed appended when
  the result does not end with them. The banner \<open>Hello\<close>, line feed, \<open>World\<close> is sent
  as \<open>Hello\<close>, carriage return, line feed, \<open>World\<close>, carriage return, line feed.
\<close>

theorem banner_line_ends:
  "Banner cfg \<noteq> [] \<longrightarrow>
     (\<exists>f. getBannerCallback cfg = Some f \<and>
        (\<forall>conn. f conn =
           (if HasSuffix (crlf (Banner cfg)) [CR, LF] then crlf (Banner cfg)
            else crlf (Banner cfg) @ [CR, LF])))"
  by (simp add: getBannerCallback_def ReplaceAll_crlf Let_def)

theorem banner_line_ends_witness:
  "\<exists>f. getBannerCallback \<lparr>PasswordAuth_Enabled = True, PasswordAuth_Accepted = False,
          Banner = ''Hello'' @ [LF] @ ''World'', validUser = ''u'', validPass = ''p''\<rparr> = Some f \<and>
       f \<lparr>conn_User = ''bob''\<rparr> = ''Hello'' @ [CR, LF] @ ''World'' @ [CR, LF]"
  using banner_line_ends [of "\<lparr>PasswordAuth_Enabled = True, PasswordAuth_Accepted = False,
          Banner = ''Hello'' @ [LF] @ ''World'', validUser = ''u'', validPass = ''p''\<rparr>"]
  by (auto simp: HasSuffix_def CR_def LF_def)

text \<open>
  The claim as the specification states it fails for a banner that has a carriage
  return and line feed already: converting every line feed would double the carriage
  return, and the code does not.
\<close>

theorem banner_existing_crlf_counterexample:
  "getBannerCallback \<lparr>PasswordAuth_Enabled = True, PasswordAuth_Accepted = False,
       Banner = ''a'' @ [CR, LF], validUser = ''u'', validPass = ''p''\<rparr> \<noteq> None \<and>
   the (getBannerCallback \<lparr>PasswordAuth_Enabled = True, PasswordAuth_Accepted = False,
          Banner = ''a'' @ [CR, LF], validUser = ''u'', validPass = ''p''\<rparr>)
       \<lparr>conn_User = ''bob''\<rparr> = ''a'' @ [CR, LF] \<and>
   banner_as_specified (''a'' @ [CR, LF]) = ''a'' @ [CR, CR, LF]"
  by (simp add: getBannerCallback_def banner_as_specified_def HasSuffix_def CR_def LF_def)

text \<open>For a banner without carriage returns the two readings agree.\<close>

lemma banner_without_CR:
  "CR \<notin> set b \<Longrightarrow> crlf b = ReplaceAll b [LF] [CR, LF]"
  by (induction b rule: crlf.induct) (auto simp: CR_def LF_def)

section \<open>Direct TCP/IP channels without an emulator\<close>

text \<open>
  Claim C8 at a channel to port 25, for any cases the \<^verbatim>\<open>select\<close> statement could
  take. The handler accepts the channel, logs the acceptance and the unsupported port,
  logs \<open>Channel closed\<close> and returns without error. It does not reject the channel,
  and it makes no call that closes it: the channel is a local variable of the handler
  and is handed to nobody on this path.
\<close>

theorem unsupported_port_is_not_closed:
  "handleDirectTCPIPChannel
     (Inr \<lparr>Address = ''10.0.0.1'', Port = 25, OriginatorAddress = ''10.0.0.2'',
           OriginatorPort = 40000\<rparr>) None cases =
     Some (None,
           [Accept,
            LogNewChannelAccepted \<lparr>Address = ''10.0.0.1'', Port = 25,
              OriginatorAddress = ''10.0.0.2'', OriginatorPort = 40000\<rparr>,
            LogUnsupportedPort 25, LogChannelClosed])"
  by (simp add: handleDirectTCPIPChannel_def servers_def)

text \<open>
  On no path does the handler itself reject or close the channel, and every reply it
  sends carries \<open>False\<close>.
\<close>

lemma serve_actions:
  "serve i e r cases acts = Some (x, acts') \<Longrightarrow>
   \<exists>new. acts' = acts @ new \<and> set new \<subseteq> insert (Reply False) (range LogChannelInput)"
proof (induction i e r cases acts rule: serve.induct)
  case (1 inputOpen errorOpen requestsOpen cases acts)
  show ?case
  proof (cases "\<not> (inputOpen \<or> errorOpen \<or> requestsOpen)")
    case True
    with "1.prems" show ?thesis by simp
  next
    case still_open: False
    show ?thesis
    proof (cases cases)
      case Nil
      with still_open "1.prems" show ?thesis by simp
    next
      case (Cons c rest)
      show ?thesis
        using still_open Cons "1.prems" "1.IH"
        by (cases c) (fastforce split: if_splits option.splits)+
    qed
  qed
qed

lemma handler_never_closes:
  assumes "handleDirectTCPIPChannel extraData acceptError cases = Some (x, acts)"
  shows "Close \<notin> set acts \<and> Reject \<notin> set acts \<and> Reply True \<notin> set acts"
proof (cases extraData)
  case (Inl e)
  with assms show ?thesis by (auto simp: handleDirectTCPIPChannel_def)
next
  case (Inr d)
  show ?thesis
  proof (cases acceptError)
    case (Some e)
    with Inr assms show ?thesis by (auto simp: handleDirectTCPIPChannel_def)
  next
    case None
    show ?thesis
    proof (cases "map_of servers (Port d)")
      case nosrv: None
      with Inr None assms show ?thesis by (auto simp: handleDirectTCPIPChannel_def)
    next
      case (Some srv)
      with Inr None assms obtain a where
        a: "serve True True True cases [Accept, LogNewChannelAccepted d, StartServer srv] = Some (x, a)"
        and acts: "acts = a @ [LogChannelClosed]"
        by (auto simp: handleDirectTCPIPChannel_def split: option.splits)
      from serve_actions [OF a] obtain new where
        "a = [Accept, LogNewChannelAccepted d, StartServer srv] @ new"
        "set new \<subseteq> insert (Reply False) (range LogChannelInput)"
        by blast
      with acts show ?thesis by auto
    qed
  qed
qed

text \<open>
  A request taken from the open requests channel is answered with one reply of
  \<open>False\<close> when it wants a reply, and not at all when it does not.
\<close>

lemma serve_request:
  "serve i e True (Request wantReply replyErr # rest) acts =
     (if wantReply
      then (case replyErr of
              Some x \<Rightarrow> Some (Some x, acts @ [Reply False])
            | None \<Rightarrow> serve i e True rest (acts @ [Reply False]))
      else serve i e True rest acts)"
  by simp

section \<open>The file system stays well formed\<close>

text \<open>
  The file system is well formed at start-up, and every command, the executor and the
  shell keep it so. In a well-formed file system the current directory is allocated and
  has a map of children, which is what the statements about \<open>touch\<close> ask for.
\<close>

lemma fs_ok_init: "fs_ok (init_world ls)"
  by (auto simp: fs_ok_def init_world_def init_FileSystem_def init_nodes_def node_at_def child_def
      less_Suc_eq split: if_splits)

lemma fs_ok_current:
  "fs_ok w \<Longrightarrow> Current (FileSystem w) < length (nodes w) \<and>
     Children (node_at w (Current (FileSystem w))) \<noteq> None"
  by (simp add: fs_ok_def)

lemma fs_ok_nodes_ok:
  "fs_ok w = (Current (FileSystem w) < length (nodes w) \<and> IsDir (node_at w (Current (FileSystem w))) \<and>
      Root (FileSystem w) < length (nodes w) \<and> IsDir (node_at w (Root (FileSystem w))) \<and> nodes_ok w)"
  by (simp add: fs_ok_def nodes_ok_def)

lemma set_child_nodes_ok:
  assumes ok: "nodes_ok w" and d: "d < length (nodes w)"
    and s: "set_child w d name n = Some w'"
    and n: "IsDir n \<longrightarrow> Children n \<noteq> None" "Children n = None \<or> Children n = Some []"
  shows "nodes_ok w'"
proof -
  from s obtain ch where ch: "Children (node_at w d) = Some ch"
    by (auto simp: set_child_def split: option.splits)
  note eff = set_child_effect [OF ch d s]
  note chd = set_child_child [OF ch d s]
  show ?thesis
    unfolding nodes_ok_def
  proof (intro allI impI)
    fix a assume a: "a < length (nodes w')"
    consider "a = d" | "a = length (nodes w)" | "a < length (nodes w)" "a \<noteq> d"
      using a eff(5) by linarith
    then show "(IsDir (node_at w' a) \<longrightarrow> Children (node_at w' a) \<noteq> None) \<and>
       (\<forall>name c. child w' a name = Some c \<longrightarrow> c < length (nodes w'))"
    proof cases
      case 1
      have "c < length (nodes w')" if c: "child w' d g = Some c" for g c
      proof (cases "g = name")
        case True
        then show ?thesis using c chd eff(5) by simp
      next
        case False
        then have "child w d g = Some c" using c chd by simp
        then have "c < length (nodes w)" using ok d unfolding nodes_ok_def by blast
        then show ?thesis using eff(5) by simp
      qed
      then show ?thesis using 1 eff(6) by simp
    next
      case 2
      have "child w' (length (nodes w)) g = None" for g
        using eff(7) n(2) by (auto simp: child_def)
      then show ?thesis using 2 eff(7) n(1) by simp
    next
      case 3
      have "node_at w' a = node_at w a" using eff(8) 3 by simp
      moreover have "child w' a g = child w a g" for g
        using eff(8) 3 by (simp add: child_def)
      moreover have "(IsDir (node_at w a) \<longrightarrow> Children (node_at w a) \<noteq> None) \<and>
          (\<forall>g c. child w a g = Some c \<longrightarrow> c < length (nodes w))"
        using ok 3(1) unfolding nodes_ok_def by blast
      ultimately show ?thesis using eff(5) by (simp add: less_Suc_eq)
    qed
  qed
qed

lemma set_child_IsDir:
  assumes ch: "Children (node_at w d) = Some ch" and s: "set_child w d name n = Some w'"
    and a: "a < length (nodes w)"
  shows "IsDir (node_at w' a) = IsDir (node_at w a)"
proof -
  have w': "w' = w\<lparr>nodes := (nodes w)[d := (node_at w d)\<lparr>Children := Some (AList.update name (length (nodes w)) ch)\<rparr>] @ [n]\<rparr>"
    using s set_child_Some [OF ch, of name n] by simp
  show ?thesis
    using a by (cases "a = d") (simp_all add: w' node_at_def nth_append)
qed

lemma touch_files_fs_ok:
  "fs_ok w \<Longrightarrow> \<exists>w'. touch_files files w = Some w' \<and> fs_ok w'"
proof (induction files arbitrary: w)
  case Nil
  then show ?case by simp
next
  case (Cons f files)
  let ?d = "Current (FileSystem w)"
  from Cons.prems obtain ch where ch: "Children (node_at w ?d) = Some ch"
    by (auto simp: fs_ok_def)
  have d: "?d < length (nodes w)" using Cons.prems by (simp add: fs_ok_def)
  obtain w1 where s: "set_child w ?d f new_file = Some w1"
    using set_child_Some [OF ch] by simp
  note eff = set_child_effect [OF ch d s]
  have rd: "Root (FileSystem w) < length (nodes w)" "IsDir (node_at w (Root (FileSystem w)))"
    "IsDir (node_at w ?d)"
    using Cons.prems by (simp_all add: fs_ok_def)
  have isdir: "a < length (nodes w) \<Longrightarrow> IsDir (node_at w1 a) = IsDir (node_at w a)" for a
    by (rule set_child_IsDir [OF ch s])
  have "nodes_ok w1"
    using set_child_nodes_ok [OF _ d s] Cons.prems
    by (simp add: fs_ok_nodes_ok new_file_def)
  then have "fs_ok w1"
    using eff(1,5) d rd isdir by (simp add: fs_ok_nodes_ok)
  from Cons.IH [OF this] s show ?case by simp
qed

lemma fs_ok_same_files:
  "nodes w' = nodes w \<Longrightarrow> FileSystem w' = FileSystem w \<Longrightarrow> fs_ok w' = fs_ok w"
  by (simp add: fs_ok_def node_at_def child_def)

lemma Fprint_files:
  "Fprint s str w = (e, w') \<Longrightarrow> nodes w' = nodes w \<and> FileSystem w' = FileSystem w"
  by (auto simp: Fprint_def Let_def)

lemma Fprintln_files:
  "Fprintln s str w = (e, w') \<Longrightarrow> nodes w' = nodes w \<and> FileSystem w' = FileSystem w"
  by (auto simp: Fprintln_def dest: Fprint_files)

lemma mkdir_parts_ok:
  "nodes_ok w \<Longrightarrow> node < length (nodes w) \<Longrightarrow> mkdir_parts parts node w = Some w' \<Longrightarrow>
   nodes_ok w' \<and> FileSystem w' = FileSystem w \<and> length (nodes w) \<le> length (nodes w') \<and>
   (\<forall>a < length (nodes w). IsDir (node_at w' a) = IsDir (node_at w a))"
proof (induction parts arbitrary: node w)
  case Nil
  then show ?case by simp
next
  case (Cons part parts)
  show ?case
  proof (cases "part = []")
    case True
    with Cons show ?thesis by simp
  next
    case part: False
    show ?thesis
    proof (cases "child w node part")
      case (Some a)
      then have "a < length (nodes w)" using Cons.prems(1,2) unfolding nodes_ok_def by blast
      moreover have "mkdir_parts parts a w = Some w'" using Cons.prems(3) part Some by simp
      ultimately show ?thesis using Cons.IH Cons.prems(1) by blast
    next
      case None
      with Cons.prems(3) part obtain w1 where s: "set_child w node part new_dir = Some w1"
        and m: "mkdir_parts parts (length (nodes w)) w1 = Some w'"
        by (auto split: option.splits)
      from s obtain ch where ch: "Children (node_at w node) = Some ch"
        by (auto simp: set_child_def split: option.splits)
      note eff = set_child_effect [OF ch Cons.prems(2) s]
      have ok1: "nodes_ok w1"
        using set_child_nodes_ok [OF Cons.prems(1,2) s] by (simp add: new_dir_def)
      have "length (nodes w) < length (nodes w1)" using eff(5) by simp
      from Cons.IH [OF ok1 this m]
      have r: "nodes_ok w'" "FileSystem w' = FileSystem w1" "length (nodes w1) \<le> length (nodes w')"
        "\<forall>a < length (nodes w1). IsDir (node_at w' a) = IsDir (node_at w1 a)"
        by simp_all
      have "IsDir (node_at w' a) = IsDir (node_at w a)" if "a < length (nodes w)" for a
        using r(4) eff(5) that set_child_IsDir [OF ch s that] by simp
      then show ?thesis using r(1,2,3) eff(1,5) by simp
    qed
  qed
qed

lemma mkdir_dirs_ok:
  "fs_ok w \<Longrightarrow> mkdir_dirs dirs w = Some w' \<Longrightarrow> fs_ok w'"
proof (induction dirs arbitrary: w)
  case Nil
  then show ?case by simp
next
  case (Cons dir dirs)
  from Cons.prems(2) obtain w1 where
    m: "mkdir_parts (Split (Clean dir) CHR ''/'') (Current (FileSystem w)) w = Some w1"
    and r: "mkdir_dirs dirs w1 = Some w'"
    by (auto split: option.splits)
  have "fs_ok w1"
    using mkdir_parts_ok [OF _ _ m] Cons.prems(1) by (simp add: fs_ok_nodes_ok)
  from Cons.IH [OF this r] show ?case .
qed

lemma cd_parts_ok:
  "nodes_ok w \<Longrightarrow> node < length (nodes w) \<Longrightarrow> IsDir (node_at w node) \<Longrightarrow>
   cd_parts parts node w = Some n \<Longrightarrow> n < length (nodes w) \<and> IsDir (node_at w n)"
proof (induction parts arbitrary: node)
  case Nil
  then show ?case by simp
next
  case (Cons part parts)
  show ?case
  proof (cases "part = ''..'' \<or> part = ''.'' \<or> part = []")
    case True
    with Cons show ?thesis by auto
  next
    case False
    with Cons.prems(4) obtain c where c: "child w node part = Some c" "IsDir (node_at w c)"
      "cd_parts parts c w = Some n"
      by (auto split: option.splits if_splits)
    have "c < length (nodes w)" using c(1) Cons.prems(1,2) unfolding nodes_ok_def by blast
    from Cons.IH [OF Cons.prems(1) this c(2,3)] show ?thesis .
  qed
qed

lemma fs_ok_cd_root:
  "fs_ok w \<Longrightarrow>
   fs_ok (w\<lparr>FileSystem := (FileSystem w)\<lparr>Current := Root (FileSystem w), Path := p\<rparr>\<rparr>)"
  by (simp add: fs_ok_def node_at_def child_def)

lemma cmdCd_fs_ok: "fs_ok w \<Longrightarrow> cmdCd_execute ctx w = (r, w') \<Longrightarrow> fs_ok w'"
proof -
  assume ok: "fs_ok w" and c: "cmdCd_execute ctx w = (r, w')"
  let ?t = "Clean (args ctx ! 1)"
  consider "length (args ctx) < 2 \<or> ?t = ''/''"
    | "\<not> (length (args ctx) < 2 \<or> ?t = ''/'')"
      "cd_parts (Split ?t CHR ''/'') (Current (FileSystem w)) w = None"
    | n where "\<not> (length (args ctx) < 2 \<or> ?t = ''/'')"
      "cd_parts (Split ?t CHR ''/'') (Current (FileSystem w)) w = Some n"
    by (cases "cd_parts (Split ?t CHR ''/'') (Current (FileSystem w)) w") auto
  then show ?thesis
  proof cases
    case 1
    then have "w' = w\<lparr>FileSystem := (FileSystem w)\<lparr>Current := Root (FileSystem w), Path := ''/''\<rparr>\<rparr>"
      using c by (auto simp: cmdCd_execute_def Let_def split: if_splits)
    then show ?thesis using fs_ok_cd_root [OF ok] by simp
  next
    case 2
    then have "nodes w' = nodes w \<and> FileSystem w' = FileSystem w"
      using c by (auto simp: cmdCd_execute_def Let_def Fprint_def)
    then show ?thesis using ok fs_ok_same_files by blast
  next
    case 3
    then have w': "w' = w\<lparr>FileSystem := (FileSystem w)\<lparr>Current := n, Path := ?t\<rparr>\<rparr>"
      using c by (auto simp: cmdCd_execute_def Let_def)
    have "n < length (nodes w) \<and> IsDir (node_at w n)"
      using cd_parts_ok [OF _ _ _ 3(2)] ok by (simp add: fs_ok_nodes_ok)
    then show ?thesis using ok by (simp add: w' fs_ok_def node_at_def child_def)
  qed
qed

lemma cmdMkdir_fs_ok: "fs_ok w \<Longrightarrow> cmdMkdir_execute ctx w = (r, w') \<Longrightarrow> fs_ok w'"
proof -
  assume ok: "fs_ok w" and c: "cmdMkdir_execute ctx w = (r, w')"
  show ?thesis
  proof (cases "length (args ctx) < 2")
    case True
    then obtain e where "Fprintln Stderr ''mkdir: missing operand'' w = (e, w')"
      using c by (auto simp: cmdMkdir_execute_def split: prod.splits)
    then show ?thesis using ok Fprintln_files fs_ok_same_files by blast
  next
    case False
    show ?thesis
    proof (cases "mkdir_dirs (tl (args ctx)) w")
      case None
      then have "w' = w" using c False by (simp add: cmdMkdir_execute_def)
      then show ?thesis using ok by simp
    next
      case (Some w1)
      then have "w' = w1" using c False by (simp add: cmdMkdir_execute_def)
      then show ?thesis using mkdir_dirs_ok [OF ok Some] by simp
    qed
  qed
qed

lemma cmdTouch_fs_ok: "fs_ok w \<Longrightarrow> cmdTouch_execute ctx w = (r, w') \<Longrightarrow> fs_ok w'"
proof -
  assume ok: "fs_ok w" and c: "cmdTouch_execute ctx w = (r, w')"
  show ?thesis
  proof (cases "length (args ctx) < 2")
    case True
    then obtain e where "Fprintln Stderr touch_usage w = (e, w')"
      using c by (auto simp: cmdTouch_execute_def split: prod.splits)
    then show ?thesis using ok Fprintln_files fs_ok_same_files by blast
  next
    case False
    from touch_files_fs_ok [OF ok, of "tl (args ctx)"] obtain w1 where
      w1: "touch_files (tl (args ctx)) w = Some w1" "fs_ok w1" by blast
    then have "w' = w1" using c False by (simp add: cmdTouch_execute_def)
    then show ?thesis using w1(2) by simp
  qed
qed

lemma ls_files_files:
  "ls_files names w = (r, w') \<Longrightarrow> nodes w' = nodes w \<and> FileSystem w' = FileSystem w"
proof (induction names arbitrary: w)
  case Nil
  then show ?case by simp
next
  case (Cons n names)
  obtain e w1 where p: "Fprintln Stdout n w = (e, w1)" by (cases "Fprintln Stdout n w")
  then have f: "nodes w1 = nodes w \<and> FileSystem w1 = FileSystem w" by (rule Fprintln_files)
  show ?case
  proof (cases e)
    case None
    then have "ls_files names w1 = (r, w')" using Cons.prems p by simp
    from Cons.IH [OF this] f show ?thesis by simp
  next
    case (Some x)
    then have "w' = w1" using Cons.prems p by simp
    then show ?thesis using f by simp
  qed
qed

lemma cat_files_files:
  "cat_files names w = (r, w') \<Longrightarrow> nodes w' = nodes w \<and> FileSystem w' = FileSystem w"
  by (cases names)
    (auto simp: Fprintln_def Fprint_def Let_def split: option.splits if_splits)

lemma other_commands_files:
  "cmdTrue_execute ctx w = (r, w') \<Longrightarrow> nodes w' = nodes w \<and> FileSystem w' = FileSystem w"
  "cmdFalse_execute ctx w = (r, w') \<Longrightarrow> nodes w' = nodes w \<and> FileSystem w' = FileSystem w"
  "cmdEcho_execute ctx w = (r, w') \<Longrightarrow> nodes w' = nodes w \<and> FileSystem w' = FileSystem w"
  "cmdPwd_execute ctx w = (r, w') \<Longrightarrow> nodes w' = nodes w \<and> FileSystem w' = FileSystem w"
  "cmdCat_execute ctx w = (r, w') \<Longrightarrow> nodes w' = nodes w \<and> FileSystem w' = FileSystem w"
  "cmdLs_execute ctx w = (r, w') \<Longrightarrow> nodes w' = nodes w \<and> FileSystem w' = FileSystem w"
proof -
  show "cmdTrue_execute ctx w = (r, w') \<Longrightarrow> nodes w' = nodes w \<and> FileSystem w' = FileSystem w"
    by (auto simp: cmdTrue_execute_def)
  show "cmdFalse_execute ctx w = (r, w') \<Longrightarrow> nodes w' = nodes w \<and> FileSystem w' = FileSystem w"
    by (auto simp: cmdFalse_execute_def)
  show "cmdEcho_execute ctx w = (r, w') \<Longrightarrow> nodes w' = nodes w \<and> FileSystem w' = FileSystem w"
    by (auto simp: cmdEcho_execute_def Fprintln_def Fprint_def Let_def split: list.splits)
  show "cmdPwd_execute ctx w = (r, w') \<Longrightarrow> nodes w' = nodes w \<and> FileSystem w' = FileSystem w"
    by (auto simp: cmdPwd_execute_def Fprintln_def Fprint_def Let_def)
  show "cmdCat_execute ctx w = (r, w') \<Longrightarrow> nodes w' = nodes w \<and> FileSystem w' = FileSystem w"
    using cat_files_files [of "tl (args ctx)" w r w']
    by (auto simp: cmdCat_execute_def Fprintln_def Fprint_def Let_def split: if_splits)
  show "cmdLs_execute ctx w = (r, w') \<Longrightarrow> nodes w' = nodes w \<and> FileSystem w' = FileSystem w"
    using ls_files_files [of _ w r w']
    by (auto simp: cmdLs_execute_def split: option.splits)
qed

lemma ReadLine_files:
  "ReadLine w = (x, w') \<Longrightarrow> nodes w' = nodes w \<and> FileSystem w' = FileSystem w"
  by (auto simp: ReadLine_def split: list.splits)

lemma run_fs_ok:
  "(\<forall>ctx w r w'. executeProgram n ctx w = Some (r, w') \<longrightarrow> fs_ok w \<longrightarrow> fs_ok w') \<and>
   (\<forall>c ctx w r w'. execute n c ctx w = Some (r, w') \<longrightarrow> fs_ok w \<longrightarrow> fs_ok w') \<and>
   (\<forall>ctx p st w r w'. shell_loop n ctx p st w = Some (r, w') \<longrightarrow> fs_ok w \<longrightarrow> fs_ok w')"
proof (induction n)
  case 0
  show ?case by simp
next
  case (Suc n)
  have ep: "fs_ok w'" if "executeProgram n ctx w = Some (r, w')" "fs_ok w" for ctx w r w'
    using Suc that by blast
  have sl: "fs_ok w'" if "shell_loop n ctx p st w = Some (r, w')" "fs_ok w" for ctx p st w r w'
    using Suc that by blast
  have ex: "fs_ok w'" if "execute n c ctx w = Some (r, w')" "fs_ok w" for c ctx w r w'
    using Suc that by blast
  have 1: "fs_ok w'" if h: "executeProgram (Suc n) ctx w = Some (r, w')" and ok: "fs_ok w"
    for ctx w r w'
  proof (cases "args ctx")
    case Nil
    with h ok show ?thesis by simp
  next
    case (Cons name rest)
    show ?thesis
    proof (cases "map_of commands name")
      case None
      then have "nodes w' = nodes w \<and> FileSystem w' = FileSystem w"
        using h Cons by (auto simp: Fprint_def Let_def)
      then show ?thesis using ok fs_ok_same_files by blast
    next
      case (Some c)
      then have "execute n c ctx w = Some (r, w')" using h Cons by simp
      then show ?thesis using ex ok by blast
    qed
  qed
  have 2: "fs_ok w'" if h: "execute (Suc n) c ctx w = Some (r, w')" and ok: "fs_ok w"
    for c ctx w r w'
  proof (cases c)
    case cmdShell
    then show ?thesis using h sl ok by auto
  next
    case cmdSu
    then show ?thesis using h ep ok by auto
  next
    case cmdTouch
    then show ?thesis using h ok cmdTouch_fs_ok by auto
  next
    case cmdMkdir
    then show ?thesis using h ok cmdMkdir_fs_ok by auto
  next
    case cmdCd
    then show ?thesis using h ok cmdCd_fs_ok by auto
  next
    case cmdTrue
    then show ?thesis using h ok other_commands_files(1) [of ctx w r w'] fs_ok_same_files [of w' w] by simp
  next
    case cmdFalse
    then show ?thesis using h ok other_commands_files(2) [of ctx w r w'] fs_ok_same_files [of w' w] by simp
  next
    case cmdEcho
    then show ?thesis using h ok other_commands_files(3) [of ctx w r w'] fs_ok_same_files [of w' w] by simp
  next
    case cmdCat
    then show ?thesis using h ok other_commands_files(5) [of ctx w r w'] fs_ok_same_files [of w' w] by simp
  next
    case cmdLs
    then show ?thesis using h ok other_commands_files(6) [of ctx w r w'] fs_ok_same_files [of w' w] by simp
  next
    case cmdPwd
    then show ?thesis using h ok other_commands_files(4) [of ctx w r w'] fs_ok_same_files [of w' w] by simp
  qed
  have 3: "fs_ok w'" if h: "shell_loop (Suc n) ctx p st w = Some (r, w')" and ok: "fs_ok w"
    for ctx p st w r w'
  proof -
    obtain e w1 where f: "Fprint Stdout p w = (e, w1)" by (cases "Fprint Stdout p w")
    have ok1: "fs_ok w1" using Fprint_files [OF f] ok fs_ok_same_files by blast
    show ?thesis
    proof (cases e)
      case (Some x)
      then show ?thesis using h f ok1 by simp
    next
      case None
      obtain line e2 w2 where rl: "ReadLine w1 = ((line, e2), w2)"
        by (cases "ReadLine w1") auto
      have ok2: "fs_ok w2" using ReadLine_files [OF rl] ok1 fs_ok_same_files by blast
      show ?thesis
      proof (cases e2)
        case (Some x)
        then show ?thesis using h f None rl ok2 by simp
      next
        case noerr: None
        show ?thesis
        proof (cases "Fields line")
          case Nil
          then have "shell_loop n ctx p st w2 = Some (r, w')" using h f None rl noerr by simp
          then show ?thesis using sl ok2 by blast
        next
          case (Cons tok rest)
          show ?thesis
          proof (cases "tok = ''exit''")
            case True
            then show ?thesis using h f None rl noerr Cons ok2 by simp
          next
            case False
            show ?thesis
            proof (cases "executeProgram n (ctx\<lparr>args := tok # rest\<rparr>) w2")
              case none: None
              then show ?thesis using h f None rl noerr Cons False by simp
            next
              case (Some rw)
              obtain r3 w3 where rw: "rw = (r3, w3)" by (cases rw)
              have ok3: "fs_ok w3" using ep Some rw ok2 by blast
              show ?thesis
              proof (cases r3)
                case Panic
                then show ?thesis using h f None rl noerr Cons False Some rw ok3 by simp
              next
                case (Return s3 e3)
                show ?thesis
                proof (cases e3)
                  case (Some x)
                  then show ?thesis using h f None rl noerr Cons False \<open>executeProgram n (ctx\<lparr>args := tok # rest\<rparr>) w2 = Some rw\<close> rw Return ok3 by simp
                next
                  case e3none: None
                  then have "shell_loop n ctx p s3 w3 = Some (r, w')"
                    using h f None rl noerr Cons False \<open>executeProgram n (ctx\<lparr>args := tok # rest\<rparr>) w2 = Some rw\<close> rw Return by simp
                  then show ?thesis using sl ok3 by blast
                qed
              qed
            qed
          qed
        qed
      qed
    qed
  qed
  show ?case using 1 2 3 by blast
qed

lemma session_fs_ok:
  "executeProgram n ctx (init_world ls) = Some (r, w') \<Longrightarrow> fs_ok w'"
  using run_fs_ok [of n] fs_ok_init by blast

section \<open>The earlier \<open>touch\<close> and \<open>cat\<close>\<close>

text \<open>
  The earlier \<open>touch\<close> refuses an existing file to a user other than root, on stdout;
  for root it empties the file; and it writes its usage line on stdout.
\<close>

lemma touch_flat_examples:
  "cmdTouch_execute_flat \<lparr>args = [''touch'', ''usr.txt''], pty = False, user = ''bob''\<rparr>
       init_flatFileSystem (init_world []) =
     (Return 1 None, init_flatFileSystem,
      (init_world [])\<lparr>written :=
         [(Stdout, ''touch: cannot touch '' @ [CHR 0x22] @ ''usr.txt'' @ [CHR 0x22] @
                   '' : Permission denied'' @ [LF])]\<rparr>)"
  "cmdTouch_execute_flat \<lparr>args = [''touch'', ''usr.txt''], pty = False, user = ''root''\<rparr>
       init_flatFileSystem (init_world []) =
     (Return 0 None,
      [(''usr.txt'', []), (''pwd.txt'', pwd_txt), (''cc.txt'', checking_account_txt)],
      init_world [])"
  "cmdTouch_execute_flat \<lparr>args = [''touch''], pty = False, user = ''bob''\<rparr>
       init_flatFileSystem (init_world []) =
     (Return 1 None, init_flatFileSystem,
      (init_world [])\<lparr>written := [(Stdout, touch_usage @ [LF])]\<rparr>)"
  by (simp_all add: cmdTouch_execute_flat_def init_flatFileSystem_def Fprintln_def Fprint_def
      init_world_def)

text \<open>
  The earlier \<open>cat\<close> is quiet without arguments and goes through all of them, but it
  returns 1 whenever it has an argument, also when every file exists.
\<close>

lemma cat_flat_examples:
  "cmdCat_execute_flat \<lparr>args = [''cat''], pty = False, user = ''bob''\<rparr>
       init_flatFileSystem (init_world []) = (Return 0 None, init_world [])"
  "cmdCat_execute_flat \<lparr>args = [''cat'', ''usr.txt''], pty = False, user = ''bob''\<rparr>
       init_flatFileSystem (init_world []) =
     (Return 1 None, (init_world [])\<lparr>written := [(Stdout, usr_txt @ [LF])]\<rparr>)"
  by (simp_all add: cmdCat_execute_flat_def init_flatFileSystem_def Fprintln_def Fprint_def
      init_world_def)

end
